theory Spec2Isabelle
  imports Complex_Main "HOL-Library.Product_Lexorder"
begin

section \<open>Dates and times\<close>

text \<open>
  The risk module works on Python \<^verbatim>\<open>datetime\<close> values. A value is modelled by its seven
  fields. Python keeps every value valid (month in 1..12, day within the month, hour below
  24 and so on); theorems that need this say so with \<open>valid_datetime\<close>. Years are
  unbounded integers here: the bound \<^verbatim>\<open>datetime.MAXYEAR = 9999\<close>, beyond which Python raises,
  is not modelled, and neither are time zones (all values share one zone, as the UTC
  values of the repository do). Rates and returns are Python floats; they are modelled
  by real numbers, so rounding is not part of the model.
\<close>

record datetime =
  year :: int
  month :: int
  day :: int
  hour :: int
  minute :: int
  second :: int
  microsecond :: int

definition valid_time :: "datetime \<Rightarrow> bool" where
  "valid_time dt =
     (0 \<le> hour dt \<and> hour dt < 24 \<and> 0 \<le> minute dt \<and> minute dt < 60 \<and>
      0 \<le> second dt \<and> second dt < 60 \<and> 0 \<le> microsecond dt \<and> microsecond dt < 1000000)"

definition isleap :: "int \<Rightarrow> bool" where
  "isleap y = (y mod 4 = 0 \<and> (y mod 100 \<noteq> 0 \<or> y mod 400 = 0))"

text \<open>\<^verbatim>\<open>calendar.monthrange(year, month)[1]\<close>, for a month in 1..12.\<close>

definition days_in_month :: "int \<Rightarrow> int \<Rightarrow> int" where
  "days_in_month y m =
     (if m = 2 then (if isleap y then 29 else 28)
      else if m = 4 \<or> m = 6 \<or> m = 9 \<or> m = 11 then 30
      else 31)"

definition valid_datetime :: "datetime \<Rightarrow> bool" where
  "valid_datetime dt =
     (1 \<le> month dt \<and> month dt \<le> 12 \<and> 1 \<le> day dt \<and>
      day dt \<le> days_in_month (year dt) (month dt) \<and> valid_time dt)"

text \<open>Comparison of two datetimes is the comparison of their field tuples.\<close>

definition dt_tuple :: "datetime \<Rightarrow> int \<times> int \<times> int \<times> int \<times> int \<times> int \<times> int" where
  "dt_tuple dt = (year dt, month dt, day dt, hour dt, minute dt, second dt, microsecond dt)"

definition dt_less :: "datetime \<Rightarrow> datetime \<Rightarrow> bool" where
  "dt_less a b = (dt_tuple a < dt_tuple b)"

definition dt_le :: "datetime \<Rightarrow> datetime \<Rightarrow> bool" where
  "dt_le a b = (dt_tuple a \<le> dt_tuple b)"

text \<open>The proleptic Gregorian ordinal of a date (\<^verbatim>\<open>toordinal\<close>).\<close>

definition days_before_year :: "int \<Rightarrow> int" where
  "days_before_year y = (let y1 = y - 1 in y1 * 365 + y1 div 4 - y1 div 100 + y1 div 400)"

definition days_before_month :: "int \<Rightarrow> int \<Rightarrow> int" where
  "days_before_month y m = sum_list (map (days_in_month y) [1..m - 1])"

definition toordinal :: "datetime \<Rightarrow> int" where
  "toordinal dt = days_before_year (year dt) + days_before_month (year dt) (month dt) + day dt"

text \<open>
  \<^verbatim>\<open>(a - b).days\<close>: the difference of two datetimes is a \<^verbatim>\<open>timedelta\<close>, normalised so that
  its seconds and microseconds are not negative; its \<^verbatim>\<open>days\<close> field is therefore the floor
  of the difference in days.
\<close>

definition timedelta_days :: "datetime \<Rightarrow> datetime \<Rightarrow> int" where
  "timedelta_days a b =
     (let days = toordinal a - toordinal b;
          secs = (second a + minute a * 60 + hour a * 3600) -
                 (second b + minute b * 60 + hour b * 3600);
          us = microsecond a - microsecond b
      in (days * 86400000000 + secs * 1000000 + us) div 86400000000)"

text \<open>\<^verbatim>\<open>datetime(y, m, d)\<close> and \<^verbatim>\<open>datetime(y, m, d, h)\<close>: the remaining fields are zero.\<close>

definition datetime_ymd :: "int \<Rightarrow> int \<Rightarrow> int \<Rightarrow> datetime" where
  "datetime_ymd y m d =
     \<lparr>year = y, month = m, day = d, hour = 0, minute = 0, second = 0, microsecond = 0\<rparr>"

definition datetime_ymdh :: "int \<Rightarrow> int \<Rightarrow> int \<Rightarrow> int \<Rightarrow> datetime" where
  "datetime_ymdh y m d h =
     \<lparr>year = y, month = m, day = d, hour = h, minute = 0, second = 0, microsecond = 0\<rparr>"

section \<open>Treasury durations\<close>

datatype error =
    KeyError
  | ValueError
  | IndexError
  | AssertionError
  | NoRateForEndDate datetime string

definition TREASURY_DURATIONS :: "string list" where
  "TREASURY_DURATIONS =
     [''1month'', ''3month'', ''6month'',
      ''1year'', ''2year'', ''3year'', ''5year'',
      ''7year'', ''10year'', ''30year'']"

text \<open>\<^verbatim>\<open>list.index\<close>: the position of the first occurrence, or \<^verbatim>\<open>ValueError\<close>.\<close>

fun index_of :: "'a list \<Rightarrow> 'a \<Rightarrow> error + nat" where
  "index_of [] x = Inl ValueError"
| "index_of (y # ys) x =
     (if y = x then Inr 0
      else (case index_of ys x of Inl e \<Rightarrow> Inl e | Inr i \<Rightarrow> Inr (Suc i)))"

definition select_treasury_duration :: "datetime \<Rightarrow> datetime \<Rightarrow> string" where
  "select_treasury_duration start_date end_date =
     (let td = timedelta_days end_date start_date in
      if td \<le> 31 then ''1month''
      else if td \<le> 93 then ''3month''
      else if td \<le> 186 then ''6month''
      else if td \<le> 366 then ''1year''
      else if td \<le> 365 * 2 + 1 then ''2year''
      else if td \<le> 365 * 3 + 1 then ''3year''
      else if td \<le> 365 * 5 + 2 then ''5year''
      else if td \<le> 365 * 7 + 2 then ''7year''
      else if td \<le> 365 * 10 + 2 then ''10year''
      else ''30year'')"

section \<open>Treasury rate resolution\<close>

text \<open>
  The curve table is a date-indexed series of snapshots (dates strictly increasing); a
  snapshot is a dictionary from duration labels to a rate or \<^verbatim>\<open>None\<close>. The table is kept
  as the list of its (date, snapshot) pairs in index order. A label that a snapshot does
  not hold at all is a \<^verbatim>\<open>KeyError\<close>; a label held with \<^verbatim>\<open>None\<close> is an absent rate.
\<close>

type_synonym curve = "string \<rightharpoonup> real option"

type_synonym curve_table = "(datetime \<times> curve) list"

text \<open>The loop of \<^verbatim>\<open>get_treasury_rate\<close> over \<^verbatim>\<open>TREASURY_DURATIONS[idx:]\<close>.\<close>

fun scan_durations :: "curve \<Rightarrow> string list \<Rightarrow> error + real option" where
  "scan_durations curve [] = Inr None"
| "scan_durations curve (duration # rest) =
     (case curve duration of
        None \<Rightarrow> Inl KeyError
      | Some rate \<Rightarrow> (if rate \<noteq> None then Inr rate else scan_durations curve rest))"

definition get_treasury_rate :: "curve_table \<Rightarrow> string \<Rightarrow> datetime \<Rightarrow> error + real option" where
  "get_treasury_rate treasury_curves treasury_duration dy =
     (case map_of treasury_curves dy of
        None \<Rightarrow> Inl KeyError
      | Some curve \<Rightarrow>
          (case index_of TREASURY_DURATIONS treasury_duration of
             Inl e \<Rightarrow> Inl e
           | Inr idx \<Rightarrow> scan_durations curve (drop idx TREASURY_DURATIONS)))"

text \<open>
  \<^verbatim>\<open>search_day_distance\<close>. The trading calendar is a collaborator, passed in as the function
  \<open>trading_day_distance\<close>; \<^verbatim>\<open>None\<close> means that it cannot tell the distance.
\<close>

definition search_day_distance ::
  "(datetime \<Rightarrow> datetime \<Rightarrow> int option) \<Rightarrow> datetime \<Rightarrow> datetime \<Rightarrow> error + int option" where
  "search_day_distance trading_day_distance end_date dt =
     (case trading_day_distance dt end_date of
        None \<Rightarrow> Inr None
      | Some tdd \<Rightarrow> (if 0 \<le> tdd then Inr (Some tdd) else Inl AssertionError))"

text \<open>
  \<^verbatim>\<open>Index.searchsorted(v)\<close> on a sorted index: the leftmost insertion point, which is the
  number of entries below \<open>v\<close>.
\<close>

definition searchsorted :: "datetime list \<Rightarrow> datetime \<Rightarrow> nat" where
  "searchsorted xs v = length (takeWhile (\<lambda>x. dt_less x v) xs)"

text \<open>
  The slice \<^verbatim>\<open>xs[j::-1]\<close>: a negative start counts from the end of the sequence, a start
  beyond either end is clipped, and the elements are read from the start down to index 0.
\<close>

definition slice_down_from :: "'a list \<Rightarrow> int \<Rightarrow> 'a list" where
  "slice_down_from xs j =
     (let n = int (length xs);
          k = (if j < 0 then j + n else j);
          start = (if k < 0 then - 1 else min k (n - 1))
      in rev (take (nat (start + 1)) xs))"

text \<open>The loop \<^verbatim>\<open>for prev_day in search_days[i - 1::-1]\<close> of \<^verbatim>\<open>choose_treasury\<close>.\<close>

fun search_backward ::
  "(datetime \<Rightarrow> datetime \<Rightarrow> int option) \<Rightarrow> curve_table \<Rightarrow> string \<Rightarrow> datetime \<Rightarrow>
   datetime list \<Rightarrow> error + (datetime \<times> real \<times> int option) option" where
  "search_backward trading_day_distance treasury_curves treasury_duration end_date [] = Inr None"
| "search_backward trading_day_distance treasury_curves treasury_duration end_date (prev_day # rest) =
     (case get_treasury_rate treasury_curves treasury_duration prev_day of
        Inl e \<Rightarrow> Inl e
      | Inr None \<Rightarrow>
          search_backward trading_day_distance treasury_curves treasury_duration end_date rest
      | Inr (Some rate) \<Rightarrow>
          (case search_day_distance trading_day_distance end_date prev_day of
             Inl e \<Rightarrow> Inl e
           | Inr search_dist \<Rightarrow> Inr (Some (prev_day, rate, search_dist))))"

text \<open>A warning written to the log: the end date, the term and the day whose rate is used.\<close>

datatype log_record = Warn datetime string datetime

text \<open>
  \<^verbatim>\<open>choose_treasury\<close> returns the pro-rated rate together with the warnings it logged, or
  the exception it raised. \<open>search_day\<close> is a datetime or \<^verbatim>\<open>None\<close>, and a datetime is always
  true, so the tests \<^verbatim>\<open>if not search_day\<close> and \<^verbatim>\<open>if search_day\<close> ask whether a day was found. The
  reads \<^verbatim>\<open>search_days[0]\<close> and \<^verbatim>\<open>search_days[-1]\<close> happen only after a day of the index was
  found; the branch for an empty index is there for completeness and is never taken.
\<close>

definition choose_treasury ::
  "(datetime \<Rightarrow> datetime \<Rightarrow> int option) \<Rightarrow> curve_table \<Rightarrow> datetime \<Rightarrow> datetime \<Rightarrow>
   error + (real \<times> log_record list)" where
  "choose_treasury trading_day_distance treasury_curves start_date end_date =
     (let treasury_duration = select_treasury_duration start_date end_date;
          end_day = end_date\<lparr>hour := 0, minute := 0, second := 0, microsecond := 0\<rparr>;
          search_days = map fst treasury_curves
      in case (if end_day \<in> set search_days
               then get_treasury_rate treasury_curves treasury_duration end_day
               else Inr None) of
           Inl e \<Rightarrow> Inl e
         | Inr (Some rate) \<Rightarrow>
             Inr (rate * real_of_int (timedelta_days end_date start_date + 1) / 365, [])
         | Inr None \<Rightarrow>
             (let i = searchsorted search_days end_day in
              case search_backward trading_day_distance treasury_curves treasury_duration
                     end_date (slice_down_from search_days (int i - 1)) of
                Inl e \<Rightarrow> Inl e
              | Inr None \<Rightarrow> Inl (NoRateForEndDate end_date treasury_duration)
              | Inr (Some (search_day, rate, search_dist)) \<Rightarrow>
                  (case search_days of
                     [] \<Rightarrow> Inl IndexError
                   | first_day # _ \<Rightarrow>
                       Inr (rate * real_of_int (timedelta_days end_date start_date + 1) / 365,
                            if (case search_dist of None \<Rightarrow> True | Some tdd \<Rightarrow> 1 < tdd) \<and>
                               dt_le first_day end_day \<and> dt_le end_day (last search_days)
                            then [Warn end_date treasury_duration search_day]
                            else []))))"

text \<open>
  A snapshot for examples: every label of \<open>TREASURY_DURATIONS\<close> holds the same entry.
\<close>

definition uniform_curve :: "real option \<Rightarrow> curve" where
  "uniform_curve v = (\<lambda>duration. if duration \<in> set TREASURY_DURATIONS then Some v else None)"

section \<open>Risk metric formulas\<close>

text \<open>
  \<^verbatim>\<open>sortino_ratio\<close>. The helper \<^verbatim>\<open>zp_math.tolerant_equals\<close> lives in another module and is
  passed in as the relation \<open>tolerant_equals\<close>.
\<close>

definition sortino_ratio :: "(real \<Rightarrow> real \<Rightarrow> bool) \<Rightarrow> real list \<Rightarrow> real \<Rightarrow> real \<Rightarrow> real" where
  "sortino_ratio tolerant_equals algorithm_returns algorithm_period_return mar =
     (if length algorithm_returns = 0 then 0
      else
        (let rets = algorithm_returns;
             downside = map (\<lambda>x. (x - mar) ^ 2) (filter (\<lambda>x. x < mar) rets);
             dr = sqrt (sum_list downside / real (length rets))
         in if tolerant_equals dr 0 then 0
            else (algorithm_period_return - mar) / dr))"

text \<open>
  The downside deviation in the words of the specification:
  \<^verbatim>\<open>sqrt(mean(square(min(returns - mar, 0))))\<close>, the mean taken over all returns.
\<close>

definition downside_deviation_spec :: "real list \<Rightarrow> real \<Rightarrow> real" where
  "downside_deviation_spec rets mar =
     sqrt (sum_list (map (\<lambda>x. (min (x - mar) 0) ^ 2) rets) / real (length rets))"

section \<open>Rolling periods\<close>

text \<open>
  \<^verbatim>\<open>dt + relativedelta(months=k)\<close>: the month moves by \<open>k\<close>, the year follows, and the day
  is clipped to the length of the new month.
\<close>

definition add_months :: "datetime \<Rightarrow> int \<Rightarrow> datetime" where
  "add_months dt k =
     (let total = year dt * 12 + (month dt - 1) + k;
          y = total div 12;
          m = total mod 12 + 1
      in dt\<lparr>year := y, month := m, day := min (days_in_month y m) (day dt)\<rparr>)"

text \<open>\<^verbatim>\<open>dt - datetime.timedelta(days=1)\<close>: the same time on the previous calendar day.\<close>

definition minus_one_day :: "datetime \<Rightarrow> datetime" where
  "minus_one_day dt =
     (if 1 < day dt then dt\<lparr>day := day dt - 1\<rparr>
      else
        (let y = (if month dt = 1 then year dt - 1 else year dt);
             m = (if month dt = 1 then 12 else month dt - 1)
         in dt\<lparr>year := y, month := m, day := days_in_month y m\<rparr>))"

text \<open>
  Vocabulary for the statements about periods: the time of day of a datetime as a tuple,
  the count of months since year 0, and the first and the last day of a calendar month.
\<close>

definition time_tuple :: "datetime \<Rightarrow> int \<times> int \<times> int \<times> int" where
  "time_tuple dt = (hour dt, minute dt, second dt, microsecond dt)"

definition month_index :: "datetime \<Rightarrow> int" where
  "month_index dt = year dt * 12 + (month dt - 1)"

definition is_month_start :: "datetime \<Rightarrow> bool" where
  "is_month_start dt = (1 \<le> month dt \<and> month dt \<le> 12 \<and> day dt = 1)"

definition is_month_end :: "datetime \<Rightarrow> bool" where
  "is_month_end dt =
     (1 \<le> month dt \<and> month dt \<le> 12 \<and> day dt = days_in_month (year dt) (month dt))"

text \<open>
  The return series is either a list of daily return objects, each with a \<^verbatim>\<open>date\<close>, or a
  date-indexed series; \<^verbatim>\<open>RiskReport.__init__\<close> tells the two apart.
\<close>

record daily_return =
  date :: datetime
  returns :: real

datatype algorithm_returns =
    ReturnsList "daily_return list"
  | ReturnsSeries "(datetime \<times> real) list"

fun returns_len :: "algorithm_returns \<Rightarrow> nat" where
  "returns_len (ReturnsList l) = length l"
| "returns_len (ReturnsSeries s) = length s"

text \<open>
  \<^verbatim>\<open>RiskMetricsPeriod\<close> is defined outside this module; a period is kept as the arguments
  its constructor receives. The metrics that the constructor computes from them are not
  part of the model.
\<close>

record 'b risk_metrics_period =
  start_date :: datetime
  end_date :: datetime
  period_returns :: algorithm_returns
  period_benchmark_returns :: 'b

text \<open>The \<^verbatim>\<open>while True\<close> loop of \<^verbatim>\<open>periods_in_range\<close>.\<close>

function periods_loop ::
  "int \<Rightarrow> algorithm_returns \<Rightarrow> 'b \<Rightarrow> datetime \<Rightarrow> datetime \<Rightarrow> 'b risk_metrics_period list" where
  "periods_loop months_per rets bench cur_start the_end =
     (let cur_end = minus_one_day (add_months cur_start months_per)
      in if dt_less the_end cur_end then []
         else \<lparr>start_date = cur_start, end_date = cur_end,
                period_returns = rets, period_benchmark_returns = bench\<rparr>
              # periods_loop months_per rets bench (add_months cur_start 1) the_end)"
  by pat_completeness auto
termination
proof (relation "measure (\<lambda>(months_per, rets, bench, cur_start, the_end).
          nat (year the_end * 12 + 14 - (year cur_start * 12 + month cur_start) - months_per))")
  show "wf (measure (\<lambda>(months_per, rets, bench, cur_start, the_end).
          nat (year the_end * 12 + 14 - (year cur_start * 12 + month cur_start) - months_per)))"
    by simp
next
  fix months_per :: int and rets :: algorithm_returns and bench :: 'b
    and cur_start the_end x :: datetime
  assume x: "x = minus_one_day (add_months cur_start months_per)"
    and le: "\<not> dt_less the_end x"
  define t where "t = year cur_start * 12 + (month cur_start - 1) + months_per"
  have decomp: "t div 12 * 12 + t mod 12 = t" and lo: "0 \<le> t mod 12" and hi: "t mod 12 < 12"
    by simp_all
  have "year x = t div 12 \<or> (year x = t div 12 - 1 \<and> t mod 12 = 0)"
    unfolding x minus_one_day_def add_months_def Let_def t_def [symmetric]
    by simp
  with decomp lo hi have "t \<le> year x * 12 + 12"
    by linarith
  moreover have "year x \<le> year the_end"
    using le by (auto simp: dt_less_def dt_tuple_def)
  ultimately have bound: "t \<le> year the_end * 12 + 12"
    by linarith
  have step: "year (add_months cur_start 1) * 12 + month (add_months cur_start 1)
      = year cur_start * 12 + month cur_start + 1"
    by (simp add: add_months_def Let_def)
  show "((months_per, rets, bench, add_months cur_start 1, the_end),
      (months_per, rets, bench, cur_start, the_end))
    \<in> measure (\<lambda>(months_per, rets, bench, cur_start, the_end).
          nat (year the_end * 12 + 14 - (year cur_start * 12 + month cur_start) - months_per))"
    using bound step by (simp add: t_def)
qed

definition periods_in_range ::
  "algorithm_returns \<Rightarrow> 'b \<Rightarrow> int \<Rightarrow> datetime \<Rightarrow> datetime \<Rightarrow> 'b risk_metrics_period list" where
  "periods_in_range rets bench months_per start end' =
     (let cur_start = start\<lparr>day := 1\<rparr> in
      if returns_len rets = 0 then []
      else
        (let the_end = minus_one_day (add_months (end'\<lparr>day := 1\<rparr>) 1)
         in periods_loop months_per rets bench cur_start the_end))"

text \<open>
  \<^verbatim>\<open>RiskReport\<close>. The creation time read from \<^verbatim>\<open>epoch_now()\<close> is the argument \<open>now\<close>, and
  the conversion of one period to its dictionary, done by \<^verbatim>\<open>RiskMetricsPeriod.to_dict\<close>, is
  the argument \<open>period_to_dict\<close> of \<open>to_dict\<close>.
\<close>

record sim_parameters =
  period_start :: datetime
  period_end :: datetime

record ('b, 'c) risk_report =
  algorithm_returns :: algorithm_returns
  sim_params :: sim_parameters
  benchmark_returns :: 'b
  created :: 'c
  month_periods :: "'b risk_metrics_period list"
  three_month_periods :: "'b risk_metrics_period list"
  six_month_periods :: "'b risk_metrics_period list"
  year_periods :: "'b risk_metrics_period list"

definition risk_report_init ::
  "algorithm_returns \<Rightarrow> sim_parameters \<Rightarrow> 'b \<Rightarrow> 'c \<Rightarrow> ('b, 'c) risk_report" where
  "risk_report_init rets params bench now =
     (let (start_date, end_date) =
            (if returns_len rets = 0 then (period_start params, period_end params)
             else
               (case rets of
                  ReturnsList l \<Rightarrow> (date (hd l), date (last l))
                | ReturnsSeries s \<Rightarrow> (fst (hd s), fst (last s))))
      in \<lparr>algorithm_returns = rets, sim_params = params, benchmark_returns = bench,
          created = now,
          month_periods = periods_in_range rets bench 1 start_date end_date,
          three_month_periods = periods_in_range rets bench 3 start_date end_date,
          six_month_periods = periods_in_range rets bench 6 start_date end_date,
          year_periods = periods_in_range rets bench 12 start_date end_date\<rparr>)"

datatype ('d, 'c) dict_value = PeriodDicts "'d list" | Created 'c

definition to_dict ::
  "('b risk_metrics_period \<Rightarrow> 'd) \<Rightarrow> ('b, 'c) risk_report \<Rightarrow> (string \<times> ('d, 'c) dict_value) list" where
  "to_dict period_to_dict r =
     [(''one_month'', PeriodDicts (map period_to_dict (month_periods r))),
      (''three_month'', PeriodDicts (map period_to_dict (three_month_periods r))),
      (''six_month'', PeriodDicts (map period_to_dict (six_month_periods r))),
      (''twelve_month'', PeriodDicts (map period_to_dict (year_periods r))),
      (''created'', Created (created r))]"

section \<open>Properties of the duration selector\<close>

lemma index_of_select:
  "index_of TREASURY_DURATIONS (select_treasury_duration s e) =
     Inr (let d = timedelta_days e s in
          if d \<le> 31 then 0 else if d \<le> 93 then 1 else if d \<le> 186 then 2
          else if d \<le> 366 then 3 else if d \<le> 731 then 4 else if d \<le> 1096 then 5
          else if d \<le> 1827 then 6 else if d \<le> 2557 then 7 else if d \<le> 3652 then 8
          else 9)"
  by (simp add: select_treasury_duration_def TREASURY_DURATIONS_def Let_def)

text \<open>
  Claim C6. \<^verbatim>\<open>select_treasury_duration\<close> is a total function of the elapsed whole-day count
  \<open>d = (end_date - start_date).days\<close>, with the inclusive thresholds 31, 93, 186, 366, 731,
  1096, 1827, 2557 and 3652 days for the nine shorter buckets and the 30-year bucket
  beyond; and it is monotonic: when the day count of one date pair is at most the day
  count of another, so are the positions of the chosen buckets in \<open>TREASURY_DURATIONS\<close>.
\<close>

theorem select_treasury_duration_thresholds_monotone:
  "select_treasury_duration s e =
     (let d = timedelta_days e s in
      if d \<le> 31 then ''1month'' else if d \<le> 93 then ''3month''
      else if d \<le> 186 then ''6month'' else if d \<le> 366 then ''1year''
      else if d \<le> 731 then ''2year'' else if d \<le> 1096 then ''3year''
      else if d \<le> 1827 then ''5year'' else if d \<le> 2557 then ''7year''
      else if d \<le> 3652 then ''10year'' else ''30year'')
   \<and> (\<forall>s1 e1 s2 e2. timedelta_days e1 s1 \<le> timedelta_days e2 s2 \<longrightarrow>
         (\<exists>i1 i2. index_of TREASURY_DURATIONS (select_treasury_duration s1 e1) = Inr i1 \<and>
                  index_of TREASURY_DURATIONS (select_treasury_duration s2 e2) = Inr i2 \<and>
                  i1 \<le> i2))"
proof (intro conjI allI impI)
  show "select_treasury_duration s e =
     (let d = timedelta_days e s in
      if d \<le> 31 then ''1month'' else if d \<le> 93 then ''3month''
      else if d \<le> 186 then ''6month'' else if d \<le> 366 then ''1year''
      else if d \<le> 731 then ''2year'' else if d \<le> 1096 then ''3year''
      else if d \<le> 1827 then ''5year'' else if d \<le> 2557 then ''7year''
      else if d \<le> 3652 then ''10year'' else ''30year'')"
    by (simp add: select_treasury_duration_def Let_def)
next
  fix s1 e1 s2 e2 :: datetime
  assume le: "timedelta_days e1 s1 \<le> timedelta_days e2 s2"
  show "\<exists>i1 i2. index_of TREASURY_DURATIONS (select_treasury_duration s1 e1) = Inr i1 \<and>
                index_of TREASURY_DURATIONS (select_treasury_duration s2 e2) = Inr i2 \<and>
                i1 \<le> i2"
    unfolding index_of_select using le by (simp add: Let_def)
qed

lemma timedelta_days_jan_2013: "timedelta_days (datetime_ymd 2013 2 1) (datetime_ymd 2013 1 1) = 31"
  by (simp add: timedelta_days_def toordinal_def days_before_year_def days_before_month_def
      days_in_month_def datetime_ymd_def Let_def)


lemma timedelta_days_year_2013: "timedelta_days (datetime_ymd 2014 1 1) (datetime_ymd 2013 1 1) = 365"
  by (simp add: timedelta_days_def toordinal_def days_before_year_def days_before_month_def
      days_in_month_def datetime_ymd_def Let_def)

theorem select_treasury_duration_thresholds_monotone_witness:
  "timedelta_days (datetime_ymd 2013 2 1) (datetime_ymd 2013 1 1)
     \<le> timedelta_days (datetime_ymd 2014 1 1) (datetime_ymd 2013 1 1) \<and>
   select_treasury_duration (datetime_ymd 2013 1 1) (datetime_ymd 2013 2 1) = ''1month'' \<and>
   (\<exists>i1 i2. index_of TREASURY_DURATIONS
               (select_treasury_duration (datetime_ymd 2013 1 1) (datetime_ymd 2013 2 1)) = Inr i1 \<and>
            index_of TREASURY_DURATIONS
               (select_treasury_duration (datetime_ymd 2013 1 1) (datetime_ymd 2014 1 1)) = Inr i2 \<and>
            i1 \<le> i2)"
proof -
  have le: "timedelta_days (datetime_ymd 2013 2 1) (datetime_ymd 2013 1 1)
     \<le> timedelta_days (datetime_ymd 2014 1 1) (datetime_ymd 2013 1 1)"
    by (simp add: timedelta_days_jan_2013 timedelta_days_year_2013)
  from select_treasury_duration_thresholds_monotone
     [of "datetime_ymd 2013 1 1" "datetime_ymd 2013 2 1"]
  have a: "select_treasury_duration (datetime_ymd 2013 1 1) (datetime_ymd 2013 2 1) = ''1month''"
    and b: "\<forall>s1 e1 s2 e2. timedelta_days e1 s1 \<le> timedelta_days e2 s2 \<longrightarrow>
         (\<exists>i1 i2. index_of TREASURY_DURATIONS (select_treasury_duration s1 e1) = Inr i1 \<and>
                  index_of TREASURY_DURATIONS (select_treasury_duration s2 e2) = Inr i2 \<and>
                  i1 \<le> i2)"
    by (simp_all add: timedelta_days_jan_2013)
  from b le show ?thesis using a le by blast
qed

section \<open>Properties of the rate lookup\<close>

lemma index_of_nth:
  "index_of xs x = Inr i \<Longrightarrow> i < length xs \<and> xs ! i = x"
proof (induction xs arbitrary: i)
  case Nil
  then show ?case by simp
next
  case (Cons y ys)
  show ?case
  proof (cases "y = x")
    case True
    with Cons.prems show ?thesis by simp
  next
    case False
    with Cons.prems obtain j where j: "index_of ys x = Inr j" and i: "i = Suc j"
      by (auto split: sum.splits)
    from Cons.IH [OF j] i show ?thesis by simp
  qed
qed

lemma index_of_select_ex:
  "\<exists>idx. index_of TREASURY_DURATIONS (select_treasury_duration s e) = Inr idx"
  unfolding index_of_select by blast

lemma scan_durations_first_present:
  "idx \<le> j \<Longrightarrow> j < length ds \<Longrightarrow>
   (\<And>k. idx \<le> k \<Longrightarrow> k < j \<Longrightarrow> curve (ds ! k) = Some None) \<Longrightarrow>
   curve (ds ! j) = Some (Some r) \<Longrightarrow>
   scan_durations curve (drop idx ds) = Inr (Some r)"
proof (induction "j - idx" arbitrary: idx)
  case 0
  then have "idx = j" by simp
  with 0 have "drop idx ds = ds ! j # drop (Suc j) ds"
    by (simp add: Cons_nth_drop_Suc)
  with 0 show ?case by simp
next
  case (Suc n)
  then have lt: "idx < j" by simp
  with Suc.prems have "drop idx ds = ds ! idx # drop (Suc idx) ds"
    by (simp add: Cons_nth_drop_Suc)
  moreover from Suc.prems lt have "curve (ds ! idx) = Some None" by simp
  moreover have "scan_durations curve (drop (Suc idx) ds) = Inr (Some r)"
  proof (rule Suc.hyps(1))
    show "n = j - Suc idx" using Suc.hyps(2) by simp
    show "Suc idx \<le> j" using lt by simp
    show "j < length ds" by fact
    show "curve (ds ! j) = Some (Some r)" by fact
    show "curve (ds ! k) = Some None" if "Suc idx \<le> k" "k < j" for k
      using that Suc.prems(3) [of k] by simp
  qed
  ultimately show ?case by simp
qed

lemma scan_durations_all_absent:
  "(\<And>b. b \<in> set ds \<Longrightarrow> curve b = Some None) \<Longrightarrow> scan_durations curve ds = Inr None"
  by (induction ds) simp_all

lemma get_treasury_rate_first_present:
  assumes "map_of treasury_curves dy = Some curve"
    and "index_of TREASURY_DURATIONS treasury_duration = Inr idx"
    and "idx \<le> j" and "j < length TREASURY_DURATIONS"
    and "\<And>k. idx \<le> k \<Longrightarrow> k < j \<Longrightarrow> curve (TREASURY_DURATIONS ! k) = Some None"
    and "curve (TREASURY_DURATIONS ! j) = Some (Some r)"
  shows "get_treasury_rate treasury_curves treasury_duration dy = Inr (Some r)"
  using assms scan_durations_first_present [of idx j TREASURY_DURATIONS curve r]
  by (simp add: get_treasury_rate_def)

lemma map_of_in_index:
  "map_of treasury_curves dy = Some curve \<Longrightarrow> dy \<in> set (map fst treasury_curves)"
  by (metis map_of_eq_None_iff option.distinct(1) set_map)

lemma choose_treasury_at_end_day:
  assumes "map_of treasury_curves
             (end_dt\<lparr>hour := 0, minute := 0, second := 0, microsecond := 0\<rparr>) = Some curve"
    and "get_treasury_rate treasury_curves (select_treasury_duration start_dt end_dt)
             (end_dt\<lparr>hour := 0, minute := 0, second := 0, microsecond := 0\<rparr>) = Inr (Some r)"
  shows "choose_treasury tdd treasury_curves start_dt end_dt =
           Inr (r * real_of_int (timedelta_days end_dt start_dt + 1) / 365, [])"
  using assms(2) map_of_in_index [OF assms(1)]
  by (simp add: choose_treasury_def Let_def)

text \<open>
  Claim C4. When the snapshot stored at \<open>end_day\<close> (the end date at midnight) holds a rate
  \<open>r\<close> for the bucket that \<open>select_treasury_duration\<close> picks, \<open>choose_treasury\<close> returns
  exactly \<open>r * (d + 1) / 365\<close>, where \<open>d = (end_dt - start_dt).days\<close>, and logs nothing:
  a simple pro-ration, no compounding.
\<close>

theorem choose_treasury_exact_entry:
  assumes "map_of treasury_curves
             (end_dt\<lparr>hour := 0, minute := 0, second := 0, microsecond := 0\<rparr>) = Some curve"
    and "curve (select_treasury_duration start_dt end_dt) = Some (Some r)"
  shows "choose_treasury tdd treasury_curves start_dt end_dt =
           Inr (r * real_of_int (timedelta_days end_dt start_dt + 1) / 365, [])"
proof -
  obtain idx where idx:
    "index_of TREASURY_DURATIONS (select_treasury_duration start_dt end_dt) = Inr idx"
    using index_of_select_ex by blast
  from index_of_nth [OF idx] have "idx < length TREASURY_DURATIONS"
    and "TREASURY_DURATIONS ! idx = select_treasury_duration start_dt end_dt"
    by simp_all
  with assms(2) have "get_treasury_rate treasury_curves
      (select_treasury_duration start_dt end_dt)
      (end_dt\<lparr>hour := 0, minute := 0, second := 0, microsecond := 0\<rparr>) = Inr (Some r)"
    using get_treasury_rate_first_present [OF assms(1) idx, where j = idx and r = r]
    by simp
  with assms(1) show ?thesis
    by (rule choose_treasury_at_end_day)
qed

lemma timedelta_days_jan_2013_afternoon:
  "timedelta_days (datetime_ymdh 2013 1 31 16) (datetime_ymd 2013 1 1) = 30"
  by (simp add: timedelta_days_def toordinal_def days_before_year_def days_before_month_def
      days_in_month_def datetime_ymd_def datetime_ymdh_def Let_def)

theorem choose_treasury_exact_entry_witness:
  "choose_treasury (\<lambda>a b. None)
     [(datetime_ymd 2013 1 31, uniform_curve (Some (1 / 20)))]
     (datetime_ymd 2013 1 1) (datetime_ymdh 2013 1 31 16)
   = Inr (1 / 20 * 31 / 365, [])"
proof -
  have table: "map_of [(datetime_ymd 2013 1 31, uniform_curve (Some (1 / 20)))]
      ((datetime_ymdh 2013 1 31 16)\<lparr>hour := 0, minute := 0, second := 0, microsecond := 0\<rparr>)
      = Some (uniform_curve (Some (1 / 20)))"
    by (simp add: datetime_ymd_def datetime_ymdh_def)
  have entry: "uniform_curve (Some (1 / 20))
      (select_treasury_duration (datetime_ymd 2013 1 1) (datetime_ymdh 2013 1 31 16))
      = Some (Some (1 / 20))"
    by (simp add: select_treasury_duration_def timedelta_days_jan_2013_afternoon
        uniform_curve_def TREASURY_DURATIONS_def)
  from choose_treasury_exact_entry [OF table entry, where tdd = "\<lambda>a b. None"]
  show ?thesis
    by (simp add: timedelta_days_jan_2013_afternoon)
qed

text \<open>
  Claim C3. When the snapshot at \<open>end_day\<close> holds every label, its entry for the target
  bucket is absent and some longer bucket has a rate, \<open>choose_treasury\<close> returns the rate of
  the first bucket after the target that has one (position \<open>j\<close> below: every bucket from
  the target up to \<open>j\<close> is absent), pro-rated by \<open>(d + 1) / 365\<close> as for an exact entry.
  The buckets before the target play no part: nothing is asked of them.
\<close>

theorem choose_treasury_longer_duration:
  assumes table: "map_of treasury_curves
             (end_dt\<lparr>hour := 0, minute := 0, second := 0, microsecond := 0\<rparr>) = Some curve"
    and idx: "index_of TREASURY_DURATIONS (select_treasury_duration start_dt end_dt) = Inr idx"
    and labels: "\<forall>b \<in> set TREASURY_DURATIONS. curve b \<noteq> None"
    and target: "curve (select_treasury_duration start_dt end_dt) = Some None"
    and longer: "\<exists>l r. idx < l \<and> l < length TREASURY_DURATIONS \<and>
                   curve (TREASURY_DURATIONS ! l) = Some (Some r)"
  shows "\<exists>j r. idx < j \<and> j < length TREASURY_DURATIONS \<and>
           curve (TREASURY_DURATIONS ! j) = Some (Some r) \<and>
           (\<forall>k. idx \<le> k \<and> k < j \<longrightarrow> curve (TREASURY_DURATIONS ! k) = Some None) \<and>
           choose_treasury tdd treasury_curves start_dt end_dt =
             Inr (r * real_of_int (timedelta_days end_dt start_dt + 1) / 365, [])"
proof -
  define present where
    "present l \<longleftrightarrow> idx < l \<and> l < length TREASURY_DURATIONS \<and>
       (\<exists>r. curve (TREASURY_DURATIONS ! l) = Some (Some r))" for l
  from longer have "\<exists>l. present l"
    by (auto simp: present_def)
  then obtain l where "present l" ..
  define j where "j = (LEAST l. present l)"
  have pj: "present j"
    unfolding j_def using \<open>present l\<close> by (rule LeastI)
  then obtain r where j: "idx < j" "j < length TREASURY_DURATIONS"
    and r: "curve (TREASURY_DURATIONS ! j) = Some (Some r)"
    by (auto simp: present_def)
  from index_of_nth [OF idx] have at_idx:
    "TREASURY_DURATIONS ! idx = select_treasury_duration start_dt end_dt"
    by simp
  have absent: "curve (TREASURY_DURATIONS ! k) = Some None" if k: "idx \<le> k" "k < j" for k
  proof (cases "k = idx")
    case True
    with at_idx target show ?thesis by simp
  next
    case False
    with k have "idx < k" by simp
    have "\<not> present k"
      using k(2) not_less_Least unfolding j_def by blast
    with \<open>idx < k\<close> k(2) j(2) have no_rate: "\<And>v. curve (TREASURY_DURATIONS ! k) \<noteq> Some (Some v)"
      by (simp add: present_def)
    from k(2) j(2) have "TREASURY_DURATIONS ! k \<in> set TREASURY_DURATIONS"
      by simp
    with labels have "curve (TREASURY_DURATIONS ! k) \<noteq> None"
      by blast
    with no_rate show ?thesis
      by (cases "curve (TREASURY_DURATIONS ! k)") auto
  qed
  have "get_treasury_rate treasury_curves (select_treasury_duration start_dt end_dt)
      (end_dt\<lparr>hour := 0, minute := 0, second := 0, microsecond := 0\<rparr>) = Inr (Some r)"
    using get_treasury_rate_first_present [OF table idx, where j = j and r = r] j r absent
    by simp
  with table have "choose_treasury tdd treasury_curves start_dt end_dt =
      Inr (r * real_of_int (timedelta_days end_dt start_dt + 1) / 365, [])"
    by (rule choose_treasury_at_end_day)
  with j r absent show ?thesis
    by blast
qed

theorem choose_treasury_longer_duration_witness:
  "choose_treasury (\<lambda>a b. None)
     [(datetime_ymd 2013 1 31,
       (uniform_curve (Some (1 / 20)))(''1month'' \<mapsto> None, ''3month'' \<mapsto> None))]
     (datetime_ymd 2013 1 1) (datetime_ymdh 2013 1 31 16)
   = Inr (1 / 20 * 31 / 365, [])"
proof -
  let ?curve = "(uniform_curve (Some (1 / 20)))(''1month'' \<mapsto> None, ''3month'' \<mapsto> None)"
  have sel: "select_treasury_duration (datetime_ymd 2013 1 1) (datetime_ymdh 2013 1 31 16)
      = ''1month''"
    by (simp add: select_treasury_duration_def timedelta_days_jan_2013_afternoon)
  have table: "map_of [(datetime_ymd 2013 1 31, ?curve)]
      ((datetime_ymdh 2013 1 31 16)\<lparr>hour := 0, minute := 0, second := 0, microsecond := 0\<rparr>)
      = Some ?curve"
    by (simp add: datetime_ymd_def datetime_ymdh_def)
  have idx: "index_of TREASURY_DURATIONS
      (select_treasury_duration (datetime_ymd 2013 1 1) (datetime_ymdh 2013 1 31 16)) = Inr 0"
    by (simp add: sel TREASURY_DURATIONS_def)
  have labels: "\<forall>b \<in> set TREASURY_DURATIONS. ?curve b \<noteq> None"
    by (simp add: uniform_curve_def TREASURY_DURATIONS_def)
  have target: "?curve (select_treasury_duration (datetime_ymd 2013 1 1)
      (datetime_ymdh 2013 1 31 16)) = Some None"
    by (simp add: sel)
  have "(0::nat) < 2 \<and> 2 < length TREASURY_DURATIONS \<and>
      ?curve (TREASURY_DURATIONS ! 2) = Some (Some (1 / 20))"
    by (simp add: uniform_curve_def TREASURY_DURATIONS_def)
  then have longer: "\<exists>l r. 0 < l \<and> l < length TREASURY_DURATIONS \<and>
      ?curve (TREASURY_DURATIONS ! l) = Some (Some r)"
    by blast
  from choose_treasury_longer_duration [OF table idx labels target longer,
      where tdd = "\<lambda>a b. None"]
  obtain j r where "?curve (TREASURY_DURATIONS ! j) = Some (Some r)"
    and res: "choose_treasury (\<lambda>a b. None) [(datetime_ymd 2013 1 31, ?curve)]
      (datetime_ymd 2013 1 1) (datetime_ymdh 2013 1 31 16)
      = Inr (r * real_of_int (timedelta_days (datetime_ymdh 2013 1 31 16)
                 (datetime_ymd 2013 1 1) + 1) / 365, [])"
    and "j < length TREASURY_DURATIONS"
    by blast
  then have "r = 1 / 20"
    by (auto simp: uniform_curve_def TREASURY_DURATIONS_def nth_Cons' split: if_splits)
  with res show ?thesis
    by (simp add: timedelta_days_jan_2013_afternoon)
qed

section \<open>Properties of the backward search\<close>

lemma dt_less_trans: "dt_less a b \<Longrightarrow> dt_less b c \<Longrightarrow> dt_less a c"
  unfolding dt_less_def by (rule less_trans)

lemma dt_le_iff: "dt_le a b \<longleftrightarrow> dt_less a b \<or> a = b"
  unfolding dt_le_def dt_less_def by (auto simp: dt_tuple_def le_less)

lemma takeWhile_below_sorted:
  "sorted_wrt dt_less xs \<Longrightarrow> x \<in> set xs \<Longrightarrow> dt_less x v \<Longrightarrow>
   x \<in> set (takeWhile (\<lambda>y. dt_less y v) xs)"
proof (induction xs)
  case Nil
  then show ?case by simp
next
  case (Cons a xs)
  show ?case
  proof (cases "x = a")
    case True
    with Cons.prems show ?thesis by simp
  next
    case False
    with Cons.prems have x: "x \<in> set xs" and "dt_less a x"
      by auto
    with Cons.prems have "dt_less a v"
      by (blast intro: dt_less_trans)
    moreover from Cons x have "x \<in> set (takeWhile (\<lambda>y. dt_less y v) xs)"
      by simp
    ultimately show ?thesis by simp
  qed
qed

lemma slice_down_from_searchsorted:
  "slice_down_from xs (int (searchsorted xs v) - 1) =
     (if takeWhile (\<lambda>y. dt_less y v) xs = [] then rev xs
      else rev (takeWhile (\<lambda>y. dt_less y v) xs))"
proof (cases "takeWhile (\<lambda>y. dt_less y v) xs = []")
  case True
  then show ?thesis
    by (simp add: slice_down_from_def searchsorted_def Let_def)
next
  case False
  let ?i = "length (takeWhile (\<lambda>y. dt_less y v) xs)"
  have "?i \<le> length xs"
    by (rule length_takeWhile_le)
  moreover from False have "0 < ?i"
    by simp
  moreover have "take ?i xs = takeWhile (\<lambda>y. dt_less y v) xs"
    by (rule takeWhile_eq_take [symmetric])
  ultimately show ?thesis
    using False by (simp add: slice_down_from_def searchsorted_def Let_def min_def)
qed

lemma set_slice_down_from: "set (slice_down_from xs j) \<subseteq> set xs"
  unfolding slice_down_from_def Let_def by (simp add: set_take_subset)

lemma slice_covers_earlier_days:
  assumes "sorted_wrt dt_less xs" and "x \<in> set xs" and "dt_less x v"
  shows "x \<in> set (slice_down_from xs (int (searchsorted xs v) - 1))"
  using takeWhile_below_sorted [OF assms] assms(2)
  by (simp add: slice_down_from_searchsorted)

lemma search_backward_none:
  "search_backward tdd treasury_curves dur end_dt ds = Inr None \<Longrightarrow>
   \<forall>d \<in> set ds. get_treasury_rate treasury_curves dur d = Inr None"
  by (induction ds) (auto split: sum.splits option.splits)

lemma search_backward_all_absent:
  "\<forall>d \<in> set ds. get_treasury_rate treasury_curves dur d = Inr None \<Longrightarrow>
   search_backward tdd treasury_curves dur end_dt ds = Inr None"
  by (induction ds) auto

lemma search_backward_found:
  "search_backward tdd treasury_curves dur end_dt ds = Inr (Some (d, r, sdist)) \<Longrightarrow>
   d \<in> set ds \<and> get_treasury_rate treasury_curves dur d = Inr (Some r) \<and>
   search_day_distance tdd end_dt d = Inr sdist"
  by (induction ds) (auto split: sum.splits option.splits)

lemma get_treasury_rate_all_absent:
  assumes "\<forall>(d, curve) \<in> set treasury_curves. \<forall>b \<in> set TREASURY_DURATIONS. curve b = Some None"
    and "index_of TREASURY_DURATIONS dur = Inr idx"
    and "dy \<in> set (map fst treasury_curves)"
  shows "get_treasury_rate treasury_curves dur dy = Inr None"
proof -
  from assms(3) obtain curve where c: "map_of treasury_curves dy = Some curve"
    by (metis map_of_eq_None_iff not_Some_eq set_map)
  then have "(dy, curve) \<in> set treasury_curves"
    by (rule map_of_SomeD)
  with assms(1) have "\<forall>b \<in> set TREASURY_DURATIONS. curve b = Some None"
    by blast
  then have "\<And>b. b \<in> set (drop idx TREASURY_DURATIONS) \<Longrightarrow> curve b = Some None"
    by (blast dest: in_set_dropD)
  then have "scan_durations curve (drop idx TREASURY_DURATIONS) = Inr None"
    by (rule scan_durations_all_absent)
  with c assms(2) show ?thesis
    by (simp add: get_treasury_rate_def)
qed

lemma index_of_error: "index_of xs x = Inl err \<Longrightarrow> err = ValueError"
  by (induction xs arbitrary: err) (auto split: if_splits sum.splits)

lemma scan_durations_error: "scan_durations curve ds = Inl err \<Longrightarrow> err = KeyError"
  by (induction ds) (auto split: option.splits if_splits)

lemma get_treasury_rate_error:
  "get_treasury_rate treasury_curves dur dy = Inl err \<Longrightarrow> err = KeyError \<or> err = ValueError"
  by (auto simp: get_treasury_rate_def split: option.splits sum.splits
      dest: index_of_error scan_durations_error)

lemma search_backward_error:
  "search_backward tdd treasury_curves dur end_dt ds = Inl err \<Longrightarrow>
   err = KeyError \<or> err = ValueError \<or> err = AssertionError"
  by (induction ds)
    (auto simp: search_day_distance_def split: sum.splits option.splits if_splits
      dest: get_treasury_rate_error)

lemma choose_treasury_no_rate_cases:
  assumes "choose_treasury tdd treasury_curves start_dt end_dt = Inl (NoRateForEndDate e' t')"
  shows "e' = end_dt \<and> t' = select_treasury_duration start_dt end_dt \<and>
    (end_dt\<lparr>hour := 0, minute := 0, second := 0, microsecond := 0\<rparr> \<in> set (map fst treasury_curves)
       \<longrightarrow> get_treasury_rate treasury_curves (select_treasury_duration start_dt end_dt)
             (end_dt\<lparr>hour := 0, minute := 0, second := 0, microsecond := 0\<rparr>) = Inr None) \<and>
    search_backward tdd treasury_curves (select_treasury_duration start_dt end_dt) end_dt
      (slice_down_from (map fst treasury_curves)
         (int (searchsorted (map fst treasury_curves)
            (end_dt\<lparr>hour := 0, minute := 0, second := 0, microsecond := 0\<rparr>)) - 1)) = Inr None"
proof -
  let ?dur = "select_treasury_duration start_dt end_dt"
  let ?end_day = "end_dt\<lparr>hour := 0, minute := 0, second := 0, microsecond := 0\<rparr>"
  let ?days = "map fst treasury_curves"
  let ?first = "if ?end_day \<in> set ?days then get_treasury_rate treasury_curves ?dur ?end_day
                else Inr None"
  let ?sb = "search_backward tdd treasury_curves ?dur end_dt
      (slice_down_from ?days (int (searchsorted ?days ?end_day) - 1))"
  have first: "?first = Inr None"
  proof (cases ?first)
    case (Inl err)
    then have "get_treasury_rate treasury_curves ?dur ?end_day = Inl err"
      by (simp split: if_splits)
    then have "err = KeyError \<or> err = ValueError"
      by (rule get_treasury_rate_error)
    moreover from Inl assms have "err = NoRateForEndDate e' t'"
      by (simp add: choose_treasury_def Let_def)
    ultimately show ?thesis by auto
  next
    case (Inr v)
    with assms show ?thesis
      by (cases v) (simp_all add: choose_treasury_def Let_def)
  qed
  have sb: "?sb = Inr None \<and> e' = end_dt \<and> t' = ?dur"
  proof (cases ?sb)
    case (Inl err)
    then have "err = KeyError \<or> err = ValueError \<or> err = AssertionError"
      by (rule search_backward_error)
    moreover from Inl assms first have "err = NoRateForEndDate e' t'"
      by (simp add: choose_treasury_def Let_def)
    ultimately show ?thesis by auto
  next
    case (Inr v)
    show ?thesis
    proof (cases v)
      case None
      with Inr assms first show ?thesis
        by (auto simp: choose_treasury_def Let_def)
    next
      case (Some found)
      with Inr assms first have False
        by (cases found) (auto simp: choose_treasury_def Let_def split: list.splits)
      then show ?thesis ..
    qed
  qed
  from first sb show ?thesis
    by (simp split: if_splits)
qed

lemma choose_treasury_raises:
  assumes "end_dt\<lparr>hour := 0, minute := 0, second := 0, microsecond := 0\<rparr>
             \<in> set (map fst treasury_curves) \<Longrightarrow>
           get_treasury_rate treasury_curves (select_treasury_duration start_dt end_dt)
             (end_dt\<lparr>hour := 0, minute := 0, second := 0, microsecond := 0\<rparr>) = Inr None"
    and "search_backward tdd treasury_curves (select_treasury_duration start_dt end_dt) end_dt
      (slice_down_from (map fst treasury_curves)
         (int (searchsorted (map fst treasury_curves)
            (end_dt\<lparr>hour := 0, minute := 0, second := 0, microsecond := 0\<rparr>)) - 1)) = Inr None"
  shows "choose_treasury tdd treasury_curves start_dt end_dt =
           Inl (NoRateForEndDate end_dt (select_treasury_duration start_dt end_dt))"
proof (cases "end_dt\<lparr>hour := 0, minute := 0, second := 0, microsecond := 0\<rparr>
             \<in> set (map fst treasury_curves)")
  case True
  from assms(1) [OF True] assms(2) True show ?thesis
    unfolding choose_treasury_def Let_def by simp
next
  case False
  with assms(2) show ?thesis
    unfolding choose_treasury_def Let_def by simp
qed

lemma scan_durations_none:
  "scan_durations curve ds = Inr None \<Longrightarrow> \<forall>b \<in> set ds. curve b = Some None"
  by (induction ds) (auto split: option.splits if_splits)

lemma dt_less_irrefl: "\<not> dt_less a a"
  by (simp add: dt_less_def)

lemma sorted_dates_distinct: "sorted_wrt dt_less xs \<Longrightarrow> distinct xs"
  by (induction xs) (auto simp: dt_less_irrefl)

lemma get_treasury_rate_none_contents:
  assumes "distinct (map fst treasury_curves)"
    and "(d, curve) \<in> set treasury_curves"
    and "index_of TREASURY_DURATIONS dur = Inr idx"
    and "get_treasury_rate treasury_curves dur d = Inr None"
  shows "\<forall>b \<in> set (drop idx TREASURY_DURATIONS). curve b = Some None"
proof -
  from assms(1,2) have "map_of treasury_curves d = Some curve"
    by simp
  with assms(3,4) have "scan_durations curve (drop idx TREASURY_DURATIONS) = Inr None"
    by (simp add: get_treasury_rate_def)
  then show ?thesis
    by (rule scan_durations_none)
qed

text \<open>
  Claim C2. For every start and end date, \<open>choose_treasury\<close> raises the exception that names
  the requested end date and the selected duration when the curve table is empty, and
  when every snapshot of the table holds an absent rate for all ten buckets. It raises
  that exception only when no usable rate exists: then every snapshot stored at a date up
  to \<open>end_day\<close> (the end date at midnight) holds an absent rate in the target bucket and in
  every longer one, the buckets \<open>TREASURY_DURATIONS[idx:]\<close>. The last part reads the table as
  the specification keeps it, with strictly increasing dates.
\<close>

theorem choose_treasury_unavailable:
  "choose_treasury tdd [] start_dt end_dt =
     Inl (NoRateForEndDate end_dt (select_treasury_duration start_dt end_dt))
   \<and> ((\<forall>(d, curve) \<in> set treasury_curves. \<forall>b \<in> set TREASURY_DURATIONS. curve b = Some None)
        \<longrightarrow> choose_treasury tdd treasury_curves start_dt end_dt =
              Inl (NoRateForEndDate end_dt (select_treasury_duration start_dt end_dt)))
   \<and> (sorted_wrt dt_less (map fst treasury_curves) \<and>
        choose_treasury tdd treasury_curves start_dt end_dt = Inl (NoRateForEndDate e' t')
        \<longrightarrow> e' = end_dt \<and> t' = select_treasury_duration start_dt end_dt \<and>
            (\<exists>idx. index_of TREASURY_DURATIONS (select_treasury_duration start_dt end_dt) = Inr idx \<and>
               (\<forall>(d, curve) \<in> set treasury_curves.
                  dt_le d (end_dt\<lparr>hour := 0, minute := 0, second := 0, microsecond := 0\<rparr>)
                  \<longrightarrow> (\<forall>b \<in> set (drop idx TREASURY_DURATIONS). curve b = Some None))))"
proof (intro conjI impI)
  show "choose_treasury tdd [] start_dt end_dt =
     Inl (NoRateForEndDate end_dt (select_treasury_duration start_dt end_dt))"
    by (simp add: choose_treasury_def Let_def slice_down_from_def searchsorted_def)
next
  let ?dur = "select_treasury_duration start_dt end_dt"
  let ?end_day = "end_dt\<lparr>hour := 0, minute := 0, second := 0, microsecond := 0\<rparr>"
  let ?days = "map fst treasury_curves"
  assume absent: "\<forall>(d, curve) \<in> set treasury_curves.
      \<forall>b \<in> set TREASURY_DURATIONS. curve b = Some None"
  obtain idx where idx: "index_of TREASURY_DURATIONS ?dur = Inr idx"
    using index_of_select_ex by blast
  have none: "get_treasury_rate treasury_curves ?dur d = Inr None" if "d \<in> set ?days" for d
    using absent idx that by (rule get_treasury_rate_all_absent)
  have "\<forall>d \<in> set (slice_down_from ?days (int (searchsorted ?days ?end_day) - 1)).
      get_treasury_rate treasury_curves ?dur d = Inr None"
    using none subsetD [OF set_slice_down_from] by fast
  then have "search_backward tdd treasury_curves ?dur end_dt
      (slice_down_from ?days (int (searchsorted ?days ?end_day) - 1)) = Inr None"
    by (rule search_backward_all_absent)
  moreover have "(if ?end_day \<in> set ?days
      then get_treasury_rate treasury_curves ?dur ?end_day else Inr None) = Inr None"
    using none by simp
  ultimately show "choose_treasury tdd treasury_curves start_dt end_dt =
      Inl (NoRateForEndDate end_dt ?dur)"
    by (intro choose_treasury_raises) (simp_all split: if_splits)
next
  assume "sorted_wrt dt_less (map fst treasury_curves) \<and>
      choose_treasury tdd treasury_curves start_dt end_dt = Inl (NoRateForEndDate e' t')"
  then show "e' = end_dt"
    using choose_treasury_no_rate_cases by blast
next
  assume "sorted_wrt dt_less (map fst treasury_curves) \<and>
      choose_treasury tdd treasury_curves start_dt end_dt = Inl (NoRateForEndDate e' t')"
  then show "t' = select_treasury_duration start_dt end_dt"
    using choose_treasury_no_rate_cases by blast
next
  let ?dur = "select_treasury_duration start_dt end_dt"
  let ?end_day = "end_dt\<lparr>hour := 0, minute := 0, second := 0, microsecond := 0\<rparr>"
  let ?days = "map fst treasury_curves"
  assume a: "sorted_wrt dt_less ?days \<and>
      choose_treasury tdd treasury_curves start_dt end_dt = Inl (NoRateForEndDate e' t')"
  then have sorted: "sorted_wrt dt_less ?days"
    and raised: "choose_treasury tdd treasury_curves start_dt end_dt =
      Inl (NoRateForEndDate e' t')"
    by simp_all
  from sorted have dist: "distinct ?days"
    by (rule sorted_dates_distinct)
  from choose_treasury_no_rate_cases [OF raised]
  have at_end: "?end_day \<in> set ?days \<Longrightarrow>
      get_treasury_rate treasury_curves ?dur ?end_day = Inr None"
    and bwd: "search_backward tdd treasury_curves ?dur end_dt
      (slice_down_from ?days (int (searchsorted ?days ?end_day) - 1)) = Inr None"
    by simp_all
  have none: "get_treasury_rate treasury_curves ?dur d = Inr None"
    if d: "d \<in> set ?days" and le: "dt_le d ?end_day" for d
  proof (cases "d = ?end_day")
    case True
    with d at_end show ?thesis by simp
  next
    case False
    with le have "dt_less d ?end_day"
      by (simp add: dt_le_iff)
    with sorted d have "d \<in> set (slice_down_from ?days (int (searchsorted ?days ?end_day) - 1))"
      by (rule slice_covers_earlier_days)
    with search_backward_none [OF bwd] show ?thesis
      by blast
  qed
  obtain idx where idx: "index_of TREASURY_DURATIONS ?dur = Inr idx"
    using index_of_select_ex by blast
  have "\<forall>(d, curve) \<in> set treasury_curves. dt_le d ?end_day
      \<longrightarrow> (\<forall>b \<in> set (drop idx TREASURY_DURATIONS). curve b = Some None)"
  proof (intro ballI, clarify)
    fix d curve b
    assume mem: "(d, curve) \<in> set treasury_curves" and le: "dt_le d ?end_day"
      and b: "b \<in> set (drop idx TREASURY_DURATIONS)"
    from mem have "d \<in> set ?days"
      by force
    from none [OF this le] have "get_treasury_rate treasury_curves ?dur d = Inr None" .
    from get_treasury_rate_none_contents [OF dist mem idx this] b
    show "curve b = Some None"
      by blast
  qed
  with idx show "\<exists>idx. index_of TREASURY_DURATIONS ?dur = Inr idx \<and>
      (\<forall>(d, curve) \<in> set treasury_curves. dt_le d ?end_day
        \<longrightarrow> (\<forall>b \<in> set (drop idx TREASURY_DURATIONS). curve b = Some None))"
    by blast
qed

theorem choose_treasury_unavailable_witness:
  "choose_treasury (\<lambda>a b. None)
     [(datetime_ymd 2013 1 30, uniform_curve None), (datetime_ymd 2013 1 31, uniform_curve None)]
     (datetime_ymd 2013 1 1) (datetime_ymdh 2013 1 31 16)
   = Inl (NoRateForEndDate (datetime_ymdh 2013 1 31 16) ''1month'') \<and>
   uniform_curve None ''3month'' = Some None"
proof -
  let ?tc = "[(datetime_ymd 2013 1 30, uniform_curve None),
              (datetime_ymd 2013 1 31, uniform_curve None)]"
  let ?s = "datetime_ymd 2013 1 1"
  let ?e = "datetime_ymdh 2013 1 31 16"
  have sel: "select_treasury_duration ?s ?e = ''1month''"
    by (simp add: select_treasury_duration_def timedelta_days_jan_2013_afternoon)
  have absent: "\<forall>(d, curve) \<in> set ?tc. \<forall>b \<in> set TREASURY_DURATIONS. curve b = Some None"
    by (simp add: uniform_curve_def)
  have sorted: "sorted_wrt dt_less (map fst ?tc)"
    by (simp add: dt_less_def dt_tuple_def datetime_ymd_def)
  have le: "dt_le (datetime_ymd 2013 1 30)
      (?e\<lparr>hour := 0, minute := 0, second := 0, microsecond := 0\<rparr>)"
    by (simp add: dt_le_def dt_tuple_def datetime_ymd_def datetime_ymdh_def)
  note inst = choose_treasury_unavailable [where tdd = "\<lambda>a b. None" and treasury_curves = ?tc
      and start_dt = ?s and end_dt = ?e and e' = ?e and t' = "''1month''"]
  have raised: "choose_treasury (\<lambda>a b. None) ?tc ?s ?e = Inl (NoRateForEndDate ?e ''1month'')"
    using inst [THEN conjunct2, THEN conjunct1, THEN mp, OF absent] unfolding sel .
  have mem: "(datetime_ymd 2013 1 30, uniform_curve None) \<in> set ?tc"
    by simp
  from inst [THEN conjunct2, THEN conjunct2, THEN mp, OF conjI [OF sorted raised]]
  obtain idx where idx: "index_of TREASURY_DURATIONS (select_treasury_duration ?s ?e) = Inr idx"
    and all: "\<forall>(d, curve) \<in> set ?tc.
      dt_le d (?e\<lparr>hour := 0, minute := 0, second := 0, microsecond := 0\<rparr>)
      \<longrightarrow> (\<forall>b \<in> set (drop idx TREASURY_DURATIONS). curve b = Some None)"
    by (elim conjE exE)
  from idx have "idx = 0"
    by (simp add: sel TREASURY_DURATIONS_def)
  then have "''3month'' \<in> set (drop idx TREASURY_DURATIONS)"
    by (simp add: TREASURY_DURATIONS_def)
  moreover from all [THEN bspec, OF mem] le
  have "\<forall>b \<in> set (drop idx TREASURY_DURATIONS). uniform_curve None b = Some None"
    by simp
  ultimately have "uniform_curve None ''3month'' = Some None"
    by blast
  with raised show ?thesis
    by (rule conjI)
qed

lemma search_day_distance_result:
  assumes "search_day_distance tdd end_dt d = Inr sdist"
  shows "tdd d end_dt = sdist \<and> (case sdist of None \<Rightarrow> True | Some n \<Rightarrow> 0 \<le> n)"
proof (cases "tdd d end_dt")
  case None
  with assms show ?thesis
    by (auto simp: search_day_distance_def)
next
  case (Some n)
  with assms have "0 \<le> n" and "sdist = Some n"
    by (auto simp: search_day_distance_def split: if_splits)
  with Some show ?thesis
    by simp
qed

lemma choose_treasury_regression:
  assumes direct: "end_dt\<lparr>hour := 0, minute := 0, second := 0, microsecond := 0\<rparr>
               \<in> set (map fst treasury_curves) \<Longrightarrow>
             get_treasury_rate treasury_curves (select_treasury_duration start_dt end_dt)
               (end_dt\<lparr>hour := 0, minute := 0, second := 0, microsecond := 0\<rparr>) = Inr None"
    and found: "search_backward tdd treasury_curves (select_treasury_duration start_dt end_dt) end_dt
        (slice_down_from (map fst treasury_curves)
           (int (searchsorted (map fst treasury_curves)
              (end_dt\<lparr>hour := 0, minute := 0, second := 0, microsecond := 0\<rparr>)) - 1))
        = Inr (Some (search_day, rate, sdist))"
  shows "choose_treasury tdd treasury_curves start_dt end_dt =
     Inr (rate * real_of_int (timedelta_days end_dt start_dt + 1) / 365,
          if (case sdist of None \<Rightarrow> True | Some n \<Rightarrow> 1 < n) \<and>
             dt_le (hd (map fst treasury_curves))
               (end_dt\<lparr>hour := 0, minute := 0, second := 0, microsecond := 0\<rparr>) \<and>
             dt_le (end_dt\<lparr>hour := 0, minute := 0, second := 0, microsecond := 0\<rparr>)
               (last (map fst treasury_curves))
          then [Warn end_dt (select_treasury_duration start_dt end_dt) search_day]
          else [])"
proof -
  from search_backward_found [OF found] set_slice_down_from
  have "search_day \<in> set (map fst treasury_curves)"
    by fast
  then obtain first_day rest where days: "map fst treasury_curves = first_day # rest"
    by (cases "map fst treasury_curves") auto
  show ?thesis
  proof (cases "end_dt\<lparr>hour := 0, minute := 0, second := 0, microsecond := 0\<rparr>
             \<in> set (map fst treasury_curves)")
    case True
    from direct [OF True] found True show ?thesis
      unfolding choose_treasury_def Let_def by (simp add: days)
  next
    case False
    with found show ?thesis
      unfolding choose_treasury_def Let_def by (simp add: days)
  qed
qed

text \<open>
  Claim C7, amended. The claim asks that the matched date lie within the date span of the
  table; the code asks it of \<open>end_day\<close>, the requested end date at midnight. When the lookup
  at \<open>end_day\<close> gives no rate and the backward search stops at \<open>search_day\<close> with the rate
  \<open>rate\<close> and the trading-day distance \<open>sdist\<close> (the answer of the calendar for \<open>search_day\<close>
  and the end date, \<open>None\<close> when it cannot tell), \<open>choose_treasury\<close> returns the pro-rated
  rate and logs at most the one staleness warning; it logs it if and only if the distance
  is unknown or above 1 and the first stored date \<open>\<le> end_day \<le>\<close> the last stored date. When
  the rate is found at \<open>end_day\<close> itself nothing is logged.
\<close>

theorem staleness_warning_iff:
  "(((end_dt\<lparr>hour := 0, minute := 0, second := 0, microsecond := 0\<rparr>
        \<in> set (map fst treasury_curves) \<longrightarrow>
      get_treasury_rate treasury_curves (select_treasury_duration start_dt end_dt)
        (end_dt\<lparr>hour := 0, minute := 0, second := 0, microsecond := 0\<rparr>) = Inr None) \<and>
     search_backward tdd treasury_curves (select_treasury_duration start_dt end_dt) end_dt
        (slice_down_from (map fst treasury_curves)
           (int (searchsorted (map fst treasury_curves)
              (end_dt\<lparr>hour := 0, minute := 0, second := 0, microsecond := 0\<rparr>)) - 1))
        = Inr (Some (search_day, rate, sdist)))
    \<longrightarrow> (\<exists>ws. choose_treasury tdd treasury_curves start_dt end_dt =
                Inr (rate * real_of_int (timedelta_days end_dt start_dt + 1) / 365, ws) \<and>
              (ws = [Warn end_dt (select_treasury_duration start_dt end_dt) search_day] \<or> ws = []) \<and>
              (ws \<noteq> [] \<longleftrightarrow>
                 (sdist = None \<or> (\<exists>n. sdist = Some n \<and> 1 < n)) \<and>
                 dt_le (hd (map fst treasury_curves))
                   (end_dt\<lparr>hour := 0, minute := 0, second := 0, microsecond := 0\<rparr>) \<and>
                 dt_le (end_dt\<lparr>hour := 0, minute := 0, second := 0, microsecond := 0\<rparr>)
                   (last (map fst treasury_curves))) \<and>
              search_day \<in> set (map fst treasury_curves) \<and>
              get_treasury_rate treasury_curves (select_treasury_duration start_dt end_dt)
                search_day = Inr (Some rate) \<and>
              tdd search_day end_dt = sdist))
   \<and> (map_of treasury_curves
          (end_dt\<lparr>hour := 0, minute := 0, second := 0, microsecond := 0\<rparr>) = Some curve \<and>
        get_treasury_rate treasury_curves (select_treasury_duration start_dt end_dt)
          (end_dt\<lparr>hour := 0, minute := 0, second := 0, microsecond := 0\<rparr>) = Inr (Some r)
       \<longrightarrow> choose_treasury tdd treasury_curves start_dt end_dt =
             Inr (r * real_of_int (timedelta_days end_dt start_dt + 1) / 365, []))"
proof (intro conjI impI)
  let ?dur = "select_treasury_duration start_dt end_dt"
  let ?end_day = "end_dt\<lparr>hour := 0, minute := 0, second := 0, microsecond := 0\<rparr>"
  let ?days = "map fst treasury_curves"
  assume a: "(?end_day \<in> set ?days \<longrightarrow>
      get_treasury_rate treasury_curves ?dur ?end_day = Inr None) \<and>
     search_backward tdd treasury_curves ?dur end_dt
        (slice_down_from ?days (int (searchsorted ?days ?end_day) - 1))
        = Inr (Some (search_day, rate, sdist))"
  then have direct: "?end_day \<in> set ?days \<Longrightarrow>
      get_treasury_rate treasury_curves ?dur ?end_day = Inr None"
    and found: "search_backward tdd treasury_curves ?dur end_dt
        (slice_down_from ?days (int (searchsorted ?days ?end_day) - 1))
        = Inr (Some (search_day, rate, sdist))"
    by simp_all
  note res = choose_treasury_regression [OF direct found]
  from search_backward_found [OF found]
  have mem: "search_day \<in> set (slice_down_from ?days (int (searchsorted ?days ?end_day) - 1))"
    and rate: "get_treasury_rate treasury_curves ?dur search_day = Inr (Some rate)"
    and dist: "search_day_distance tdd end_dt search_day = Inr sdist"
    by simp_all
  from mem set_slice_down_from have mem': "search_day \<in> set ?days"
    by fast
  from search_day_distance_result [OF dist] have tdd: "tdd search_day end_dt = sdist"
    by simp
  have cond: "(case sdist of None \<Rightarrow> True | Some n \<Rightarrow> 1 < n) \<longleftrightarrow>
      (sdist = None \<or> (\<exists>n. sdist = Some n \<and> 1 < n))"
    by (cases sdist) simp_all
  show "\<exists>ws. choose_treasury tdd treasury_curves start_dt end_dt =
                Inr (rate * real_of_int (timedelta_days end_dt start_dt + 1) / 365, ws) \<and>
              (ws = [Warn end_dt ?dur search_day] \<or> ws = []) \<and>
              (ws \<noteq> [] \<longleftrightarrow>
                 (sdist = None \<or> (\<exists>n. sdist = Some n \<and> 1 < n)) \<and>
                 dt_le (hd ?days) ?end_day \<and> dt_le ?end_day (last ?days)) \<and>
              search_day \<in> set ?days \<and>
              get_treasury_rate treasury_curves ?dur search_day = Inr (Some rate) \<and>
              tdd search_day end_dt = sdist"
  proof -
    define ws where "ws =
      (if (case sdist of None \<Rightarrow> True | Some n \<Rightarrow> 1 < n) \<and>
          dt_le (hd ?days) ?end_day \<and> dt_le ?end_day (last ?days)
       then [Warn end_dt ?dur search_day] else [])"
    have "choose_treasury tdd treasury_curves start_dt end_dt =
        Inr (rate * real_of_int (timedelta_days end_dt start_dt + 1) / 365, ws)"
      unfolding ws_def by (rule res)
    moreover have "ws = [Warn end_dt ?dur search_day] \<or> ws = []"
      by (simp add: ws_def)
    moreover have "ws \<noteq> [] \<longleftrightarrow>
        (sdist = None \<or> (\<exists>n. sdist = Some n \<and> 1 < n)) \<and>
        dt_le (hd ?days) ?end_day \<and> dt_le ?end_day (last ?days)"
      unfolding cond [symmetric] by (simp add: ws_def)
    ultimately show ?thesis
      using mem' rate tdd by (intro exI [of _ ws] conjI)
  qed
next
  assume "map_of treasury_curves
          (end_dt\<lparr>hour := 0, minute := 0, second := 0, microsecond := 0\<rparr>) = Some curve \<and>
        get_treasury_rate treasury_curves (select_treasury_duration start_dt end_dt)
          (end_dt\<lparr>hour := 0, minute := 0, second := 0, microsecond := 0\<rparr>) = Inr (Some r)"
  then show "choose_treasury tdd treasury_curves start_dt end_dt =
             Inr (r * real_of_int (timedelta_days end_dt start_dt + 1) / 365, [])"
    using choose_treasury_at_end_day by blast
qed

lemma midnight_ymdh:
  "(datetime_ymdh y m d h)\<lparr>hour := 0, minute := 0, second := 0, microsecond := 0\<rparr>
     = datetime_ymd y m d"
  by (simp add: datetime_ymd_def datetime_ymdh_def)

lemma midnight_ymd:
  "(datetime_ymd y m d)\<lparr>hour := 0, minute := 0, second := 0, microsecond := 0\<rparr>
     = datetime_ymd y m d"
  by (simp add: datetime_ymd_def)

lemma datetime_ymd_eq_iff:
  "datetime_ymd y m d = datetime_ymd y' m' d' \<longleftrightarrow> y = y' \<and> m = m' \<and> d = d'"
  by (simp add: datetime_ymd_def)

lemma dt_less_ymd:
  "dt_less (datetime_ymd y m d) (datetime_ymd y' m' d') \<longleftrightarrow>
     y < y' \<or> y = y' \<and> (m < m' \<or> m = m' \<and> d < d')"
  by (auto simp: dt_less_def dt_tuple_def datetime_ymd_def)

lemma dt_le_ymd:
  "dt_le (datetime_ymd y m d) (datetime_ymd y' m' d') \<longleftrightarrow>
     y < y' \<or> y = y' \<and> (m < m' \<or> m = m' \<and> d \<le> d')"
  by (auto simp: dt_le_def dt_tuple_def datetime_ymd_def)

lemma get_treasury_rate_uniform:
  "get_treasury_rate ((dy, uniform_curve v) # rest) ''1month'' dy = Inr v"
  by (cases v) (simp_all add: get_treasury_rate_def uniform_curve_def TREASURY_DURATIONS_def)

theorem staleness_warning_iff_witness:
  "choose_treasury (\<lambda>a b. Some 3)
     [(datetime_ymd 2013 1 28, uniform_curve (Some (1 / 20))),
      (datetime_ymd 2013 1 31, uniform_curve None)]
     (datetime_ymd 2013 1 1) (datetime_ymdh 2013 1 31 16)
   = Inr (1 / 20 * 31 / 365,
          [Warn (datetime_ymdh 2013 1 31 16) ''1month'' (datetime_ymd 2013 1 28)])"
proof -
  let ?tc = "[(datetime_ymd 2013 1 28, uniform_curve (Some (1 / 20))),
              (datetime_ymd 2013 1 31, uniform_curve None)]"
  let ?s = "datetime_ymd 2013 1 1"
  let ?e = "datetime_ymdh 2013 1 31 16"
  let ?tdd = "\<lambda>(a::datetime) (b::datetime). Some (3::int)"
  have sel: "select_treasury_duration ?s ?e = ''1month''"
    by (simp add: select_treasury_duration_def timedelta_days_jan_2013_afternoon)
  have at_end: "get_treasury_rate ?tc ''1month'' (datetime_ymd 2013 1 31) = Inr None"
    by (simp add: get_treasury_rate_def uniform_curve_def TREASURY_DURATIONS_def
        datetime_ymd_eq_iff)
  have slice: "slice_down_from (map fst ?tc)
      (int (searchsorted (map fst ?tc) (datetime_ymd 2013 1 31)) - 1) = [datetime_ymd 2013 1 28]"
    by (simp add: slice_down_from_def searchsorted_def dt_less_ymd Let_def)
  have found: "search_backward ?tdd ?tc ''1month'' ?e [datetime_ymd 2013 1 28]
      = Inr (Some (datetime_ymd 2013 1 28, 1 / 20, Some 3))"
    by (simp add: get_treasury_rate_uniform search_day_distance_def)
  have hyp: "(?e\<lparr>hour := 0, minute := 0, second := 0, microsecond := 0\<rparr>
        \<in> set (map fst ?tc) \<longrightarrow>
      get_treasury_rate ?tc (select_treasury_duration ?s ?e)
        (?e\<lparr>hour := 0, minute := 0, second := 0, microsecond := 0\<rparr>) = Inr None) \<and>
     search_backward ?tdd ?tc (select_treasury_duration ?s ?e) ?e
        (slice_down_from (map fst ?tc)
           (int (searchsorted (map fst ?tc)
              (?e\<lparr>hour := 0, minute := 0, second := 0, microsecond := 0\<rparr>)) - 1))
        = Inr (Some (datetime_ymd 2013 1 28, 1 / 20, Some 3))"
    unfolding sel midnight_ymdh slice using at_end found by simp
  from staleness_warning_iff [where tdd = ?tdd and treasury_curves = ?tc and start_dt = ?s
      and end_dt = ?e and search_day = "datetime_ymd 2013 1 28" and rate = "1 / 20"
      and sdist = "Some 3", THEN conjunct1, THEN mp, OF hyp]
  obtain ws where res: "choose_treasury ?tdd ?tc ?s ?e =
        Inr (1 / 20 * real_of_int (timedelta_days ?e ?s + 1) / 365, ws)"
    and shape: "ws = [Warn ?e (select_treasury_duration ?s ?e) (datetime_ymd 2013 1 28)] \<or> ws = []"
    and iff: "ws \<noteq> [] \<longleftrightarrow>
       (Some (3::int) = None \<or> (\<exists>n. Some (3::int) = Some n \<and> 1 < n)) \<and>
       dt_le (hd (map fst ?tc)) (?e\<lparr>hour := 0, minute := 0, second := 0, microsecond := 0\<rparr>) \<and>
       dt_le (?e\<lparr>hour := 0, minute := 0, second := 0, microsecond := 0\<rparr>) (last (map fst ?tc))"
    by blast
  from iff have "ws \<noteq> []"
    by (simp add: midnight_ymdh dt_le_ymd)
  with shape have "ws = [Warn ?e ''1month'' (datetime_ymd 2013 1 28)]"
    by (simp add: sel)
  with res show ?thesis
    by (simp add: timedelta_days_jan_2013_afternoon)
qed

lemma timedelta_days_9:
  "timedelta_days (datetime_ymd 2013 1 10) (datetime_ymd 2013 1 1) = 9"
  by (simp add: timedelta_days_def toordinal_def days_before_year_def days_before_month_def
      days_in_month_def datetime_ymd_def Let_def)

lemma timedelta_days_4:
  "timedelta_days (datetime_ymd 2013 1 5) (datetime_ymd 2013 1 1) = 4"
  by (simp add: timedelta_days_def toordinal_def days_before_year_def days_before_month_def
      days_in_month_def datetime_ymd_def Let_def)

text \<open>
  Claim C7 as stated fails. The table holds the single date 2013-01-01; the end date is
  2013-01-10 and the calendar reports a distance of 6 trading days. The search matches
  2013-01-01, which lies within the date span of the table (it is its only date) and is
  more than one trading day away, and yet nothing is logged: \<open>end_day\<close> is after the last
  stored date.
\<close>

theorem staleness_warning_matched_date_counterexample:
  "search_backward (\<lambda>a b. Some 6) [(datetime_ymd 2013 1 1, uniform_curve (Some (1 / 20)))]
      (select_treasury_duration (datetime_ymd 2013 1 1) (datetime_ymd 2013 1 10))
      (datetime_ymd 2013 1 10)
      (slice_down_from [datetime_ymd 2013 1 1]
         (int (searchsorted [datetime_ymd 2013 1 1] (datetime_ymd 2013 1 10)) - 1))
     = Inr (Some (datetime_ymd 2013 1 1, 1 / 20, Some 6)) \<and>
   (1::int) < 6 \<and>
   dt_le (hd [datetime_ymd 2013 1 1]) (datetime_ymd 2013 1 1) \<and>
   dt_le (datetime_ymd 2013 1 1) (last [datetime_ymd 2013 1 1]) \<and>
   choose_treasury (\<lambda>a b. Some 6) [(datetime_ymd 2013 1 1, uniform_curve (Some (1 / 20)))]
      (datetime_ymd 2013 1 1) (datetime_ymd 2013 1 10)
     = Inr (1 / 20 * 10 / 365, [])"
proof -
  have sel: "select_treasury_duration (datetime_ymd 2013 1 1) (datetime_ymd 2013 1 10) = ''1month''"
    by (simp add: select_treasury_duration_def timedelta_days_9)
  have slice: "slice_down_from [datetime_ymd 2013 1 1]
      (int (searchsorted [datetime_ymd 2013 1 1] (datetime_ymd 2013 1 10)) - 1)
      = [datetime_ymd 2013 1 1]"
    by (simp add: slice_down_from_def searchsorted_def dt_less_ymd Let_def)
  have found: "search_backward (\<lambda>a b. Some 6)
      [(datetime_ymd 2013 1 1, uniform_curve (Some (1 / 20)))] ''1month''
      (datetime_ymd 2013 1 10) [datetime_ymd 2013 1 1]
      = Inr (Some (datetime_ymd 2013 1 1, 1 / 20, Some 6))"
    by (simp add: get_treasury_rate_uniform search_day_distance_def)
  have "choose_treasury (\<lambda>a b. Some 6) [(datetime_ymd 2013 1 1, uniform_curve (Some (1 / 20)))]
      (datetime_ymd 2013 1 1) (datetime_ymd 2013 1 10) = Inr (1 / 20 * 10 / 365, [])"
    unfolding choose_treasury_def Let_def sel midnight_ymd
    by (simp add: slice get_treasury_rate_uniform search_day_distance_def datetime_ymd_eq_iff
        dt_le_ymd timedelta_days_9)
  with found show ?thesis
    unfolding sel slice by (simp add: dt_le_ymd)
qed

text \<open>
  Claim C1 on the code. The table holds the single date 2013-01-10 and the end date is
  2013-01-05, so the earliest stored date is after \<open>end_day\<close>. \<open>searchsorted\<close> answers 0, the
  slice \<open>search_days[-1::-1]\<close> starts from the last stored date, and the search visits
  2013-01-10: \<open>choose_treasury\<close> returns its rate, or fails the assertion of
  \<open>search_day_distance\<close> when the calendar reports a negative distance. It never raises
  the exception for a missing rate.
\<close>

theorem choose_treasury_visits_later_date:
  "dt_less (datetime_ymd 2013 1 5) (datetime_ymd 2013 1 10) \<and>
   slice_down_from [datetime_ymd 2013 1 10]
      (int (searchsorted [datetime_ymd 2013 1 10] (datetime_ymd 2013 1 5)) - 1)
     = [datetime_ymd 2013 1 10] \<and>
   choose_treasury tdd [(datetime_ymd 2013 1 10, uniform_curve (Some (1 / 20)))]
      (datetime_ymd 2013 1 1) (datetime_ymd 2013 1 5)
     = (case tdd (datetime_ymd 2013 1 10) (datetime_ymd 2013 1 5) of
          None \<Rightarrow> Inr (1 / 20 * 5 / 365, [])
        | Some n \<Rightarrow> if 0 \<le> n then Inr (1 / 20 * 5 / 365, []) else Inl AssertionError)"
proof -
  have sel: "select_treasury_duration (datetime_ymd 2013 1 1) (datetime_ymd 2013 1 5) = ''1month''"
    by (simp add: select_treasury_duration_def timedelta_days_4)
  have slice: "slice_down_from [datetime_ymd 2013 1 10]
      (int (searchsorted [datetime_ymd 2013 1 10] (datetime_ymd 2013 1 5)) - 1)
      = [datetime_ymd 2013 1 10]"
    by (simp add: slice_down_from_def searchsorted_def dt_less_ymd Let_def)
  have "choose_treasury tdd [(datetime_ymd 2013 1 10, uniform_curve (Some (1 / 20)))]
      (datetime_ymd 2013 1 1) (datetime_ymd 2013 1 5)
     = (case tdd (datetime_ymd 2013 1 10) (datetime_ymd 2013 1 5) of
          None \<Rightarrow> Inr (1 / 20 * 5 / 365, [])
        | Some n \<Rightarrow> if 0 \<le> n then Inr (1 / 20 * 5 / 365, []) else Inl AssertionError)"
    unfolding choose_treasury_def Let_def sel midnight_ymd
    by (simp add: slice get_treasury_rate_uniform search_day_distance_def datetime_ymd_eq_iff
        dt_le_ymd timedelta_days_4 split: option.splits)
  with slice show ?thesis
    by (simp add: dt_less_ymd)
qed

section \<open>Properties of the Sortino ratio\<close>

lemma downside_sum_min:
  fixes mar :: real
  shows "sum_list (map (\<lambda>x. (x - mar) ^ 2) (filter (\<lambda>x. x < mar) rets)) =
   sum_list (map (\<lambda>x. (min (x - mar) 0) ^ 2) rets)"
  by (induction rets) (auto simp: min_def)

lemma downside_sum_none_below:
  fixes mar :: real
  shows "\<forall>x \<in> set rets. mar \<le> x \<Longrightarrow>
   sum_list (map (\<lambda>x. (x - mar) ^ 2) (filter (\<lambda>x. x < mar) rets)) = 0"
  by (induction rets) auto

text \<open>
  Claim C9. \<open>sortino_ratio\<close> returns 0 for the empty array of returns. Otherwise its
  downside deviation is the square root of the sum of the squares of \<open>return - mar\<close> over
  the returns strictly below \<open>mar\<close>, divided by the number of all returns; this is the
  deviation \<open>sqrt(mean(square(min(returns - mar, 0))))\<close> of the specification. The result is
  0 when the deviation is tolerantly zero, in particular when no return is below \<open>mar\<close>
  (given that the tolerant comparison accepts 0 against 0), and
  \<open>(period_return - mar) / dr\<close> otherwise.
\<close>

theorem sortino_ratio_downside_deviation:
  "sortino_ratio teq [] period_return mar = 0
   \<and> (rets \<noteq> [] \<longrightarrow>
        sortino_ratio teq rets period_return mar =
          (let dr = sqrt (sum_list (map (\<lambda>x. (x - mar) ^ 2) (filter (\<lambda>x. x < mar) rets))
                          / real (length rets))
           in if teq dr 0 then 0 else (period_return - mar) / dr))
   \<and> sqrt (sum_list (map (\<lambda>x. (x - mar) ^ 2) (filter (\<lambda>x. x < mar) rets)) / real (length rets))
        = downside_deviation_spec rets mar
   \<and> (rets \<noteq> [] \<and> (\<forall>x \<in> set rets. mar \<le> x) \<and> teq 0 0 \<longrightarrow>
        sortino_ratio teq rets period_return mar = 0)"
proof (intro conjI impI)
  show "sortino_ratio teq [] period_return mar = 0"
    by (simp add: sortino_ratio_def)
next
  assume "rets \<noteq> []"
  then show "sortino_ratio teq rets period_return mar =
      (let dr = sqrt (sum_list (map (\<lambda>x. (x - mar) ^ 2) (filter (\<lambda>x. x < mar) rets))
                      / real (length rets))
       in if teq dr 0 then 0 else (period_return - mar) / dr)"
    by (simp add: sortino_ratio_def)
next
  show "sqrt (sum_list (map (\<lambda>x. (x - mar) ^ 2) (filter (\<lambda>x. x < mar) rets)) / real (length rets))
      = downside_deviation_spec rets mar"
    by (simp only: downside_deviation_spec_def downside_sum_min)
next
  assume a: "rets \<noteq> [] \<and> (\<forall>x \<in> set rets. mar \<le> x) \<and> teq 0 0"
  then have "sum_list (map (\<lambda>x. (x - mar) ^ 2) (filter (\<lambda>x. x < mar) rets)) = 0"
    by (simp add: downside_sum_none_below)
  with a show "sortino_ratio teq rets period_return mar = 0"
    by (simp add: sortino_ratio_def Let_def)
qed

theorem sortino_ratio_downside_deviation_witness:
  "sortino_ratio (\<lambda>a b. \<bar>a - b\<bar> \<le> 1 / 1000000) [- 1, 1] 1 0 = 1 / sqrt (1 / 2) \<and>
   sortino_ratio (\<lambda>a b. \<bar>a - b\<bar> \<le> 1 / 1000000) [1, 2] 1 0 = 0"
proof -
  let ?teq = "\<lambda>a b :: real. \<bar>a - b\<bar> \<le> 1 / 1000000"
  have big: "\<not> sqrt (1 / 2) \<le> (1 / 1000000 :: real)"
  proof
    assume "sqrt (1 / 2) \<le> (1 / 1000000 :: real)"
    then have "sqrt (1 / 2) ^ 2 \<le> (1 / 1000000 :: real) ^ 2"
      by (intro power_mono) simp_all
    then show False
      by (simp add: power2_eq_square)
  qed
  have ne: "[- 1, 1 :: real] \<noteq> []"
    by simp
  from sortino_ratio_downside_deviation
      [where teq = ?teq and rets = "[- 1, 1]" and period_return = 1 and mar = 0,
       THEN conjunct2, THEN conjunct1, THEN mp, OF ne]
  have first: "sortino_ratio ?teq [- 1, 1] 1 0 = 1 / sqrt (1 / 2)"
    using big by (simp add: Let_def)
  have hyp: "[1, 2 :: real] \<noteq> [] \<and> (\<forall>x \<in> set [1, 2 :: real]. 0 \<le> x) \<and> ?teq 0 0"
    by simp
  from sortino_ratio_downside_deviation
      [where teq = ?teq and rets = "[1, 2]" and period_return = 1 and mar = 0,
       THEN conjunct2, THEN conjunct2, THEN conjunct2, THEN mp, OF hyp]
  have "sortino_ratio ?teq [1, 2] 1 0 = 0" .
  with first show ?thesis
    by (rule conjI)
qed

section \<open>Properties of the calendar arithmetic\<close>

lemma div_mod_12_of_month:
  fixes y m :: int
  assumes "1 \<le> m" and "m \<le> 12"
  shows "(y * 12 + (m - 1)) div 12 = y" and "(y * 12 + (m - 1)) mod 12 + 1 = m"
proof -
  have eq: "y * 12 + (m - 1) = 12 * y + (m - 1)" by simp
  from assms have lo: "0 \<le> m - 1" and hi: "m - 1 < 12" by simp_all
  show "(y * 12 + (m - 1)) div 12 = y"
    using eq lo hi by (rule int_div_pos_eq)
  have "(y * 12 + (m - 1)) mod 12 = m - 1"
    using eq lo hi by (rule int_mod_pos_eq)
  then show "(y * 12 + (m - 1)) mod 12 + 1 = m" by simp
qed

lemma days_in_month_ge: "28 \<le> days_in_month y m"
  by (simp add: days_in_month_def)

lemma year_add_months: "year (add_months d k) = (month_index d + k) div 12"
  by (simp add: add_months_def month_index_def Let_def)

lemma month_add_months: "month (add_months d k) = (month_index d + k) mod 12 + 1"
  by (simp add: add_months_def month_index_def Let_def)

lemma month_add_months_valid: "1 \<le> month (add_months d k) \<and> month (add_months d k) \<le> 12"
proof -
  have "0 \<le> (month_index d + k) mod 12" and "(month_index d + k) mod 12 < 12"
    by simp_all
  then show ?thesis
    unfolding month_add_months by linarith
qed

lemma month_index_add_months: "month_index (add_months d k) = month_index d + k"
proof -
  have "month_index (add_months d k) =
      (month_index d + k) div 12 * 12 + (month_index d + k) mod 12"
    unfolding month_index_def [of "add_months d k"] year_add_months month_add_months by simp
  then show ?thesis by simp
qed

lemma day_add_months: "day d = 1 \<Longrightarrow> day (add_months d k) = 1"
  using days_in_month_ge [of "(month_index d + k) div 12" "(month_index d + k) mod 12 + 1"]
  by (simp add: add_months_def month_index_def Let_def)

lemma time_tuple_add_months: "time_tuple (add_months d k) = time_tuple d"
  by (simp add: add_months_def time_tuple_def Let_def)

lemma is_month_start_add_months: "day d = 1 \<Longrightarrow> is_month_start (add_months d k)"
  using month_add_months_valid [of d k] by (simp add: is_month_start_def day_add_months)

lemma add_months_eq:
  "day d = 1 \<Longrightarrow>
   add_months d k = d\<lparr>year := (month_index d + k) div 12, month := (month_index d + k) mod 12 + 1\<rparr>"
  using days_in_month_ge [of "(month_index d + k) div 12" "(month_index d + k) mod 12 + 1"]
  by (simp add: add_months_def month_index_def Let_def)

lemma add_months_add_months:
  assumes "day d = 1"
  shows "add_months (add_months d j) k = add_months d (j + k)"
proof -
  have d1: "day (add_months d j) = 1"
    using assms by (rule day_add_months)
  show ?thesis
    unfolding add_months_eq [OF d1] month_index_add_months
    by (simp add: add_months_eq [OF assms] add.assoc)
qed

lemma add_months_zero: "is_month_start d \<Longrightarrow> add_months d 0 = d"
  using div_mod_12_of_month [of "month d" "year d"]
  by (simp add: is_month_start_def add_months_eq month_index_def)

lemma month_index_minus_one_day:
  assumes "is_month_start d"
  shows "month_index (minus_one_day d) = month_index d - 1"
    and "is_month_end (minus_one_day d)"
    and "time_tuple (minus_one_day d) = time_tuple d"
  using assms
  by (auto simp: is_month_start_def is_month_end_def minus_one_day_def month_index_def
      time_tuple_def Let_def)

lemma dt_less_month_index:
  assumes "1 \<le> month a" "month a \<le> 12" "1 \<le> month b" "month b \<le> 12"
  shows "dt_less a b \<longleftrightarrow>
     month_index a < month_index b \<or>
     month_index a = month_index b \<and> (day a, time_tuple a) < (day b, time_tuple b)"
proof -
  have lt: "month_index a < month_index b \<longleftrightarrow>
      year a < year b \<or> year a = year b \<and> month a < month b"
    using assms unfolding month_index_def by linarith
  have eq: "month_index a = month_index b \<longleftrightarrow> year a = year b \<and> month a = month b"
  proof
    assume h: "month_index a = month_index b"
    have "month_index a div 12 = year a" "month_index a mod 12 + 1 = month a"
      "month_index b div 12 = year b" "month_index b mod 12 + 1 = month b"
      unfolding month_index_def using assms by (simp_all only: div_mod_12_of_month)
    then show "year a = year b \<and> month a = month b"
      unfolding h by simp
  next
    assume "year a = year b \<and> month a = month b"
    then show "month_index a = month_index b"
      by (simp add: month_index_def)
  qed
  show ?thesis
    unfolding lt eq by (auto simp: dt_less_def dt_tuple_def time_tuple_def)
qed

section \<open>The periods of a range\<close>

lemma month_index_eq_iff:
  assumes "1 \<le> month a" "month a \<le> 12" "1 \<le> month b" "month b \<le> 12"
  shows "month_index a = month_index b \<longleftrightarrow> year a = year b \<and> month a = month b"
proof
  assume h: "month_index a = month_index b"
  have "month_index a div 12 = year a" "month_index a mod 12 + 1 = month a"
    "month_index b div 12 = year b" "month_index b mod 12 + 1 = month b"
    unfolding month_index_def using assms by (simp_all only: div_mod_12_of_month)
  then show "year a = year b \<and> month a = month b"
    unfolding h by simp
next
  assume "year a = year b \<and> month a = month b"
  then show "month_index a = month_index b"
    by (simp add: month_index_def)
qed

lemma period_end_facts:
  assumes "is_month_start cs"
  shows "month_index (minus_one_day (add_months cs m)) = month_index cs + m - 1"
    and "is_month_end (minus_one_day (add_months cs m))"
    and "time_tuple (minus_one_day (add_months cs m)) = time_tuple cs"
proof -
  from assms have "day cs = 1"
    by (simp add: is_month_start_def)
  then have st: "is_month_start (add_months cs m)"
    by (rule is_month_start_add_months)
  show "month_index (minus_one_day (add_months cs m)) = month_index cs + m - 1"
    using month_index_minus_one_day(1) [OF st] by (simp add: month_index_add_months)
  show "is_month_end (minus_one_day (add_months cs m))"
    using st by (rule month_index_minus_one_day(2))
  show "time_tuple (minus_one_day (add_months cs m)) = time_tuple cs"
    using month_index_minus_one_day(3) [OF st] by (simp add: time_tuple_add_months)
qed

lemma period_end_exceeds_iff:
  assumes cs: "is_month_start cs" and te: "is_month_end the_end"
  shows "dt_less the_end (minus_one_day (add_months cs m)) \<longleftrightarrow>
     month_index the_end - (if time_tuple cs \<le> time_tuple the_end then 0 else 1)
       < month_index cs + m - 1"
proof -
  let ?ce = "minus_one_day (add_months cs m)"
  note ce = period_end_facts [OF cs, of m]
  from te have vt: "1 \<le> month the_end" "month the_end \<le> 12"
    and dt: "day the_end = days_in_month (year the_end) (month the_end)"
    by (simp_all add: is_month_end_def)
  from ce(2) have vc: "1 \<le> month ?ce" "month ?ce \<le> 12"
    and dc: "day ?ce = days_in_month (year ?ce) (month ?ce)"
    by (simp_all add: is_month_end_def)
  have less: "dt_less the_end ?ce \<longleftrightarrow>
     month_index the_end < month_index ?ce \<or>
     month_index the_end = month_index ?ce \<and> (day the_end, time_tuple the_end) < (day ?ce, time_tuple ?ce)"
    using vt vc by (rule dt_less_month_index)
  show ?thesis
  proof (cases "month_index the_end = month_index ?ce")
    case True
    with month_index_eq_iff [OF vt vc] have "year the_end = year ?ce" "month the_end = month ?ce"
      by simp_all
    with dt dc have "day the_end = day ?ce"
      by simp
    with less True have "dt_less the_end ?ce \<longleftrightarrow> time_tuple the_end < time_tuple cs"
      by (simp add: ce(3))
    also have "\<dots> \<longleftrightarrow> \<not> time_tuple cs \<le> time_tuple the_end"
      by (simp add: not_le)
    finally show ?thesis
      using True by (simp add: ce(1))
  next
    case False
    with less have "dt_less the_end ?ce \<longleftrightarrow> month_index the_end < month_index ?ce"
      by simp
    with False show ?thesis
      unfolding ce(1) by (simp split: if_splits) linarith
  qed
qed

lemma periods_loop_unfold:
  "periods_loop m rets bench cs the_end =
     (if dt_less the_end (minus_one_day (add_months cs m)) then []
      else \<lparr>start_date = cs, end_date = minus_one_day (add_months cs m),
             period_returns = rets, period_benchmark_returns = bench\<rparr>
           # periods_loop m rets bench (add_months cs 1) the_end)"
  by (subst periods_loop.simps) (simp add: Let_def)

lemma periods_loop_eq:
  assumes "is_month_start cs" and "is_month_end the_end"
    and "lastm = month_index the_end - (if time_tuple cs \<le> time_tuple the_end then 0 else 1)"
  shows "periods_loop m rets bench cs the_end =
     map (\<lambda>k. \<lparr>start_date = add_months cs (int k),
                 end_date = minus_one_day (add_months (add_months cs (int k)) m),
                 period_returns = rets, period_benchmark_returns = bench\<rparr>)
       [0..<nat (lastm - (month_index cs + m - 1) + 1)]"
  using assms
proof (induction "nat (lastm - (month_index cs + m - 1) + 1)" arbitrary: cs)
  case 0
  then have "lastm < month_index cs + m - 1"
    by simp
  with 0 have "dt_less the_end (minus_one_day (add_months cs m))"
    by (simp only: period_end_exceeds_iff)
  with 0(1) show ?case
    by (subst periods_loop_unfold) simp
next
  case (Suc n)
  let ?p = "\<lambda>d. \<lparr>start_date = d, end_date = minus_one_day (add_months d m),
                  period_returns = rets, period_benchmark_returns = bench\<rparr>"
  from Suc.hyps(2) have le: "month_index cs + m - 1 \<le> lastm"
    by simp
  with Suc.prems have emit: "\<not> dt_less the_end (minus_one_day (add_months cs m))"
    by (simp only: period_end_exceeds_iff)
  from Suc.prems(1) have d1: "day cs = 1"
    by (simp add: is_month_start_def)
  have st: "is_month_start (add_months cs 1)"
    using d1 by (rule is_month_start_add_months)
  have lastm': "lastm = month_index the_end -
      (if time_tuple (add_months cs 1) \<le> time_tuple the_end then 0 else 1)"
    using Suc.prems(3) by (simp add: time_tuple_add_months)
  have n: "n = nat (lastm - (month_index (add_months cs 1) + m - 1) + 1)"
    using Suc.hyps(2) by (simp add: month_index_add_months)
  have "periods_loop m rets bench (add_months cs 1) the_end =
      map (\<lambda>k. ?p (add_months (add_months cs 1) (int k))) [0..<n]"
    using Suc.hyps(1) [OF n st Suc.prems(2) lastm'] n by simp
  also have "\<dots> = map (\<lambda>k. ?p (add_months cs (int (Suc k)))) [0..<n]"
    by (simp add: add_months_add_months [OF d1] add.commute)
  finally have rest: "periods_loop m rets bench (add_months cs 1) the_end =
      map (\<lambda>k. ?p (add_months cs (int (Suc k)))) [0..<n]" .
  have "map (\<lambda>k. ?p (add_months cs (int k))) [0..<Suc n] =
      ?p (add_months cs 0) # map (\<lambda>k. ?p (add_months cs (int (Suc k)))) [0..<n]"
    by (simp only: upt_conv_Cons [of 0 "Suc n"] zero_less_Suc list.map map_Suc_upt [symmetric]
        map_map o_def) simp
  also have "\<dots> = ?p cs # periods_loop m rets bench (add_months cs 1) the_end"
    by (simp only: rest add_months_zero [OF Suc.prems(1)])
  also have "\<dots> = periods_loop m rets bench cs the_end"
    using emit by (subst (2) periods_loop_unfold) simp
  finally show ?case
    using Suc.hyps(2) by simp
qed

lemma month_index_less_iff:
  assumes "1 \<le> month a" "month a \<le> 12" "1 \<le> month b" "month b \<le> 12"
  shows "month_index a < month_index b \<longleftrightarrow>
     year a < year b \<or> year a = year b \<and> month a < month b"
  using assms unfolding month_index_def by linarith

lemma the_end_facts:
  assumes "1 \<le> month e" "month e \<le> 12"
  shows "is_month_end (minus_one_day (add_months (e\<lparr>day := 1\<rparr>) 1))"
    and "month_index (minus_one_day (add_months (e\<lparr>day := 1\<rparr>) 1)) = month_index e"
    and "time_tuple (minus_one_day (add_months (e\<lparr>day := 1\<rparr>) 1)) = time_tuple e"
proof -
  from assms have st: "is_month_start (e\<lparr>day := 1\<rparr>)"
    by (simp add: is_month_start_def)
  show "is_month_end (minus_one_day (add_months (e\<lparr>day := 1\<rparr>) 1))"
    using st by (rule period_end_facts(2))
  show "month_index (minus_one_day (add_months (e\<lparr>day := 1\<rparr>) 1)) = month_index e"
    using period_end_facts(1) [OF st, of 1] by (simp add: month_index_def)
  show "time_tuple (minus_one_day (add_months (e\<lparr>day := 1\<rparr>) 1)) = time_tuple e"
    using period_end_facts(3) [OF st, of 1] by (simp add: time_tuple_def)
qed

lemma periods_in_range_eq:
  assumes "returns_len rets \<noteq> 0"
    and "1 \<le> month s" "month s \<le> 12" "1 \<le> month e" "month e \<le> 12"
  shows "periods_in_range rets bench m s e =
     map (\<lambda>k. \<lparr>start_date = add_months (s\<lparr>day := 1\<rparr>) (int k),
                 end_date = minus_one_day (add_months (add_months (s\<lparr>day := 1\<rparr>) (int k)) m),
                 period_returns = rets, period_benchmark_returns = bench\<rparr>)
       [0..<nat (month_index e - (if time_tuple s \<le> time_tuple e then 0 else 1)
                  - (month_index s + m - 1) + 1)]"
proof -
  let ?cs = "s\<lparr>day := 1\<rparr>"
  let ?te = "minus_one_day (add_months (e\<lparr>day := 1\<rparr>) 1)"
  from assms have st: "is_month_start ?cs"
    by (simp add: is_month_start_def)
  note te = the_end_facts [OF assms(4,5)]
  have mi: "month_index ?cs = month_index s" and tt: "time_tuple ?cs = time_tuple s"
    by (simp_all add: month_index_def time_tuple_def)
  have lastm: "month_index e - (if time_tuple s \<le> time_tuple e then 0 else 1) =
      month_index ?te - (if time_tuple ?cs \<le> time_tuple ?te then 0 else 1)"
    by (simp only: te mi tt)
  have "periods_in_range rets bench m s e = periods_loop m rets bench ?cs ?te"
    using assms(1) by (simp add: periods_in_range_def Let_def)
  also note periods_loop_eq [OF st te(1) lastm, of m rets bench]
  finally show ?thesis
    by (simp only: mi)
qed

text \<open>
  Claim C8. For an empty return series \<open>periods_in_range\<close> gives the empty list, for every
  window length and for every pair of bounds, and the dictionary exported by the report
  built from it holds four empty period lists and the creation time; no error arises.
\<close>

theorem empty_returns_empty_report:
  "returns_len rets = 0 \<longrightarrow>
     periods_in_range rets bench months_per s e = [] \<and>
     to_dict period_to_dict (risk_report_init rets params bench now) =
       [(''one_month'', PeriodDicts []), (''three_month'', PeriodDicts []),
        (''six_month'', PeriodDicts []), (''twelve_month'', PeriodDicts []),
        (''created'', Created now)]"
  by (simp add: periods_in_range_def risk_report_init_def to_dict_def Let_def)

theorem empty_returns_empty_report_witness:
  "periods_in_range (ReturnsList []) () 3 (datetime_ymd 2013 1 15) (datetime_ymd 2013 6 20) = [] \<and>
   to_dict (\<lambda>p. start_date p)
     (risk_report_init (ReturnsSeries [])
        \<lparr>period_start = datetime_ymd 2013 1 15, period_end = datetime_ymd 2013 6 20\<rparr> ()
        (1370000000 :: int)) =
     [(''one_month'', PeriodDicts []), (''three_month'', PeriodDicts []),
      (''six_month'', PeriodDicts []), (''twelve_month'', PeriodDicts []),
      (''created'', Created 1370000000)]"
proof -
  have a: "returns_len (ReturnsList []) = 0" and b: "returns_len (ReturnsSeries []) = 0"
    by simp_all
  from empty_returns_empty_report [where rets = "ReturnsList []", THEN mp, OF a, THEN conjunct1]
    empty_returns_empty_report [where rets = "ReturnsSeries []", THEN mp, OF b, THEN conjunct2]
  show ?thesis
    by (rule conjI)
qed

text \<open>
  The count of periods. The bounds are datetimes, and the loop compares the end of a
  period, which carries the time of day of the start bound, with the last day of the
  final month, which carries the time of day of the end bound. When the time of day of
  the start bound is not later than that of the end bound (as for dates normalised to
  midnight), the bounds in the months \<open>M_start\<close> and \<open>M_end\<close> and a window of \<open>m \<ge> 1\<close>
  months give exactly \<open>max(0, N - m + 1)\<close> periods, \<open>N\<close> being the count of calendar months
  from \<open>M_start\<close> through \<open>M_end\<close>, and the \<open>k\<close>-th period starts on the first day of the month
  \<open>k\<close> months after \<open>M_start\<close>.
\<close>

lemma periods_in_range_count:
  assumes "returns_len rets \<noteq> 0"
    and "valid_datetime s" and "valid_datetime e"
    and "1 \<le> m"
    and "time_tuple s \<le> time_tuple e"
  shows "length (periods_in_range rets bench m s e) =
           nat (max 0 (month_index e - month_index s + 1 - m + 1))
         \<and> (\<forall>k < length (periods_in_range rets bench m s e).
               start_date (periods_in_range rets bench m s e ! k) = add_months (s\<lparr>day := 1\<rparr>) (int k) \<and>
               is_month_start (start_date (periods_in_range rets bench m s e ! k)) \<and>
               month_index (start_date (periods_in_range rets bench m s e ! k)) =
                 month_index s + int k)"
proof -
  from assms(2,3) have v: "1 \<le> month s" "month s \<le> 12" "1 \<le> month e" "month e \<le> 12"
    by (simp_all add: valid_datetime_def)
  note eq = periods_in_range_eq [OF assms(1) v, of bench m]
  have len: "length (periods_in_range rets bench m s e) =
      nat (month_index e - (month_index s + m - 1) + 1)"
    unfolding eq using assms(5) by simp
  have d1: "day (s\<lparr>day := 1\<rparr>) = 1"
    by simp
  have mi: "month_index (s\<lparr>day := 1\<rparr>) = month_index s"
    by (simp add: month_index_def)
  show ?thesis
  proof (intro conjI allI impI)
    show "length (periods_in_range rets bench m s e) =
        nat (max 0 (month_index e - month_index s + 1 - m + 1))"
      unfolding len by (simp add: max_def)
  next
    fix k
    assume "k < length (periods_in_range rets bench m s e)"
    then have k: "k < nat (month_index e - (if time_tuple s \<le> time_tuple e then 0 else 1)
        - (month_index s + m - 1) + 1)"
      unfolding eq by simp
    then have nth: "start_date (periods_in_range rets bench m s e ! k) =
        add_months (s\<lparr>day := 1\<rparr>) (int k)"
      unfolding eq by simp
    show "start_date (periods_in_range rets bench m s e ! k) = add_months (s\<lparr>day := 1\<rparr>) (int k)"
      by (rule nth)
    show "is_month_start (start_date (periods_in_range rets bench m s e ! k))"
      unfolding nth using d1 by (rule is_month_start_add_months)
    show "month_index (start_date (periods_in_range rets bench m s e ! k)) = month_index s + int k"
      unfolding nth by (simp add: month_index_add_months mi)
  qed
qed

lemma periods_in_range_count_example:
  "length (periods_in_range
       (ReturnsSeries [(datetime_ymd 2013 1 15, 0), (datetime_ymd 2013 3 20, 0)]) () 2
       (datetime_ymd 2013 1 15) (datetime_ymd 2013 3 20)) = 2 \<and>
   start_date (periods_in_range
       (ReturnsSeries [(datetime_ymd 2013 1 15, 0), (datetime_ymd 2013 3 20, 0)]) () 2
       (datetime_ymd 2013 1 15) (datetime_ymd 2013 3 20) ! 1) = datetime_ymd 2013 2 1"
proof -
  let ?rets = "ReturnsSeries [(datetime_ymd 2013 1 15, 0), (datetime_ymd 2013 3 20, 0)]"
  let ?s = "datetime_ymd 2013 1 15"
  let ?e = "datetime_ymd 2013 3 20"
  have ne: "returns_len ?rets \<noteq> 0"
    by simp
  have vs: "valid_datetime ?s" and ve: "valid_datetime ?e"
    by (simp_all add: valid_datetime_def valid_time_def days_in_month_def datetime_ymd_def)
  have m: "(1::int) \<le> 2"
    by simp
  have tt: "time_tuple ?s \<le> time_tuple ?e"
    by (simp add: time_tuple_def datetime_ymd_def)
  note inst = periods_in_range_count [OF ne vs ve m tt, of "()"]
  from inst have len: "length (periods_in_range ?rets () 2 ?s ?e) = 2"
    by (simp add: month_index_def datetime_ymd_def)
  then have "1 < length (periods_in_range ?rets () 2 ?s ?e)"
    by simp
  with inst have "start_date (periods_in_range ?rets () 2 ?s ?e ! 1) =
      add_months (?s\<lparr>day := 1\<rparr>) (int 1)"
    by blast
  also have "\<dots> = datetime_ymd 2013 2 1"
    by (simp add: add_months_def datetime_ymd_def days_in_month_def Let_def)
  finally show ?thesis
    using len by simp
qed

text \<open>
  Claim C10 on the code. The series runs from 2013-01-15 23:00 to 2013-01-20 00:00, within
  one month, so \<open>N = 1\<close> and a window of one month should give one period, starting on
  2013-01-01. \<open>periods_in_range\<close> puts \<open>the_end\<close> on the last day of the month so that this
  window is kept, but it never sets the time of day aside: the candidate ends on
  2013-01-31 at 23:00, \<open>the_end\<close> is 2013-01-31 at 00:00, and the loop stops at once. No
  period is produced, neither by \<open>periods_in_range\<close> nor in the report built from the
  series.
\<close>

theorem periods_in_range_drops_final_window:
  "0 < returns_len (ReturnsSeries [(datetime_ymdh 2013 1 15 23, 0), (datetime_ymdh 2013 1 20 0, 0)]) \<and>
   valid_datetime (datetime_ymdh 2013 1 15 23) \<and>
   valid_datetime (datetime_ymdh 2013 1 20 0) \<and>
   dt_less (datetime_ymdh 2013 1 15 23) (datetime_ymdh 2013 1 20 0) \<and>
   nat (max 0 (month_index (datetime_ymdh 2013 1 20 0) -
               month_index (datetime_ymdh 2013 1 15 23) + 1 - 1 + 1)) = 1 \<and>
   periods_in_range
     (ReturnsSeries [(datetime_ymdh 2013 1 15 23, 0), (datetime_ymdh 2013 1 20 0, 0)]) () 1
     (datetime_ymdh 2013 1 15 23) (datetime_ymdh 2013 1 20 0) = [] \<and>
   month_periods (risk_report_init
     (ReturnsSeries [(datetime_ymdh 2013 1 15 23, 0), (datetime_ymdh 2013 1 20 0, 0)])
     \<lparr>period_start = datetime_ymd 2013 1 1, period_end = datetime_ymd 2013 12 31\<rparr> ()
     (0 :: int)) = []"
proof -
  let ?s = "datetime_ymdh 2013 1 15 23"
  let ?e = "datetime_ymdh 2013 1 20 0"
  let ?rets = "ReturnsSeries [(?s, 0), (?e, 0)]"
  have ne: "returns_len ?rets \<noteq> 0"
    by simp
  have v: "1 \<le> month ?s" "month ?s \<le> 12" "1 \<le> month ?e" "month ?e \<le> 12"
    by (simp_all add: datetime_ymdh_def)
  have none: "periods_in_range ?rets () 1 ?s ?e = []"
    unfolding periods_in_range_eq [OF ne v]
    by (simp add: time_tuple_def month_index_def datetime_ymdh_def)
  have "month_periods (risk_report_init ?rets
      \<lparr>period_start = datetime_ymd 2013 1 1, period_end = datetime_ymd 2013 12 31\<rparr> ()
      (0 :: int)) = periods_in_range ?rets () 1 ?s ?e"
    by (simp add: risk_report_init_def)
  with none show ?thesis
    by (simp add: valid_datetime_def valid_time_def days_in_month_def datetime_ymdh_def
        dt_less_def dt_tuple_def month_index_def)
qed

lemma month_end_date_le:
  assumes a: "is_month_end a" and e: "1 \<le> month e" "month e \<le> 12"
    and le: "month_index a \<le> month_index e"
  shows "(year a, month a, day a) \<le> (year e, month e, days_in_month (year e) (month e))"
proof -
  from a have va: "1 \<le> month a" "month a \<le> 12"
    and da: "day a = days_in_month (year a) (month a)"
    by (simp_all add: is_month_end_def)
  show ?thesis
  proof (cases "month_index a = month_index e")
    case True
    with month_index_eq_iff [OF va e] have "year a = year e" "month a = month e"
      by simp_all
    with da show ?thesis
      by simp
  next
    case False
    with le have "month_index a < month_index e"
      by simp
    with month_index_less_iff [OF va e] have "year a < year e \<or> year a = year e \<and> month a < month e"
      by simp
    then show ?thesis
      by auto
  qed
qed

text \<open>
  Claim C5. For a nonempty return series and every window length, every period that
  \<open>periods_in_range\<close> emits starts on the first day of a calendar month and ends on the last
  day of a calendar month; the start of each period after the first is the start of the
  period before it moved on by exactly one month, so the starts ascend; and the date on
  which a period ends is never after the last day of the month of the end bound.
\<close>

theorem periods_in_range_month_aligned:
  assumes "returns_len rets \<noteq> 0"
    and "valid_datetime s" and "valid_datetime e"
  shows "(\<forall>p \<in> set (periods_in_range rets bench m s e).
            is_month_start (start_date p) \<and> is_month_end (end_date p) \<and>
            (year (end_date p), month (end_date p), day (end_date p))
              \<le> (year e, month e, days_in_month (year e) (month e)))
         \<and> (\<forall>i. Suc i < length (periods_in_range rets bench m s e) \<longrightarrow>
               start_date (periods_in_range rets bench m s e ! Suc i) =
                 add_months (start_date (periods_in_range rets bench m s e ! i)) 1 \<and>
               month_index (start_date (periods_in_range rets bench m s e ! Suc i)) =
                 month_index (start_date (periods_in_range rets bench m s e ! i)) + 1 \<and>
               dt_less (start_date (periods_in_range rets bench m s e ! i))
                 (start_date (periods_in_range rets bench m s e ! Suc i)))"
proof -
  let ?cs = "s\<lparr>day := 1\<rparr>"
  let ?n = "nat (month_index e - (if time_tuple s \<le> time_tuple e then 0 else 1)
                  - (month_index s + m - 1) + 1)"
  let ?ps = "periods_in_range rets bench m s e"
  from assms(2,3) have v: "1 \<le> month s" "month s \<le> 12" "1 \<le> month e" "month e \<le> 12"
    by (simp_all add: valid_datetime_def)
  note eq = periods_in_range_eq [OF assms(1) v, of bench m]
  have d1: "day ?cs = 1"
    by simp
  have mi: "month_index ?cs = month_index s"
    by (simp add: month_index_def)
  have len: "length ?ps = ?n"
    unfolding eq by simp
  have start_nth: "start_date (?ps ! k) = add_months ?cs (int k)" if "k < ?n" for k
    unfolding eq using that by simp
  have end_nth: "end_date (?ps ! k) = minus_one_day (add_months (add_months ?cs (int k)) m)"
    if "k < ?n" for k
    unfolding eq using that by simp
  have aligned: "is_month_start (start_date (?ps ! k)) \<and> is_month_end (end_date (?ps ! k)) \<and>
      (year (end_date (?ps ! k)), month (end_date (?ps ! k)), day (end_date (?ps ! k)))
        \<le> (year e, month e, days_in_month (year e) (month e))" if k: "k < ?n" for k
  proof -
    have st: "is_month_start (add_months ?cs (int k))"
      using d1 by (rule is_month_start_add_months)
    note pe = period_end_facts [OF st, of m]
    have "month_index (end_date (?ps ! k)) = month_index s + int k + m - 1"
      unfolding end_nth [OF k] pe(1) by (simp add: month_index_add_months mi)
    also from k have "\<dots> \<le> month_index e"
      by (simp split: if_splits)
    finally have "month_index (end_date (?ps ! k)) \<le> month_index e" .
    moreover have me: "is_month_end (end_date (?ps ! k))"
      unfolding end_nth [OF k] by (rule pe(2))
    ultimately have "(year (end_date (?ps ! k)), month (end_date (?ps ! k)), day (end_date (?ps ! k)))
        \<le> (year e, month e, days_in_month (year e) (month e))"
      using v(3,4) by (intro month_end_date_le)
    with st me show ?thesis
      by (simp add: start_nth [OF k])
  qed
  have stride: "start_date (?ps ! Suc i) = add_months (start_date (?ps ! i)) 1 \<and>
      month_index (start_date (?ps ! Suc i)) = month_index (start_date (?ps ! i)) + 1 \<and>
      dt_less (start_date (?ps ! i)) (start_date (?ps ! Suc i))" if i: "Suc i < ?n" for i
  proof -
    from i have i': "i < ?n"
      by simp
    have step: "add_months ?cs (int (Suc i)) = add_months (add_months ?cs (int i)) 1"
      by (simp add: add_months_add_months [OF d1] add.commute)
    have idx: "month_index (add_months ?cs (int (Suc i))) = month_index (add_months ?cs (int i)) + 1"
      by (simp add: month_index_add_months)
    have "dt_less (add_months ?cs (int i)) (add_months ?cs (int (Suc i)))"
      using month_add_months_valid [of ?cs "int i"] month_add_months_valid [of ?cs "int (Suc i)"] idx
      by (simp add: dt_less_month_index)
    with step idx show ?thesis
      by (simp only: start_nth [OF i] start_nth [OF i'])
  qed
  show ?thesis
  proof (intro conjI ballI allI impI)
    fix p
    assume "p \<in> set ?ps"
    then obtain k where "k < length ?ps" and p: "p = ?ps ! k"
      by (auto simp: in_set_conv_nth)
    with len have "k < ?n"
      by simp
    note al = aligned [OF this, folded p]
    show "is_month_start (start_date p)"
      by (rule al [THEN conjunct1])
    show "is_month_end (end_date p)"
      by (rule al [THEN conjunct2, THEN conjunct1])
    show "(year (end_date p), month (end_date p), day (end_date p))
        \<le> (year e, month e, days_in_month (year e) (month e))"
      by (rule al [THEN conjunct2, THEN conjunct2])
  next
    fix i
    assume "Suc i < length ?ps"
    with len have "Suc i < ?n"
      by simp
    note st = stride [OF this]
    show "start_date (?ps ! Suc i) = add_months (start_date (?ps ! i)) 1"
      by (rule st [THEN conjunct1])
    show "month_index (start_date (?ps ! Suc i)) = month_index (start_date (?ps ! i)) + 1"
      by (rule st [THEN conjunct2, THEN conjunct1])
    show "dt_less (start_date (?ps ! i)) (start_date (?ps ! Suc i))"
      by (rule st [THEN conjunct2, THEN conjunct2])
  qed
qed

lemma periods_in_range_two_month_example:
  "periods_in_range
     (ReturnsSeries [(datetime_ymd 2013 1 15, 0), (datetime_ymd 2013 3 20, 0)]) () 2
     (datetime_ymd 2013 1 15) (datetime_ymd 2013 3 20) =
   [\<lparr>start_date = datetime_ymd 2013 1 1, end_date = datetime_ymd 2013 2 28,
      period_returns = ReturnsSeries [(datetime_ymd 2013 1 15, 0), (datetime_ymd 2013 3 20, 0)],
      period_benchmark_returns = ()\<rparr>,
    \<lparr>start_date = datetime_ymd 2013 2 1, end_date = datetime_ymd 2013 3 31,
      period_returns = ReturnsSeries [(datetime_ymd 2013 1 15, 0), (datetime_ymd 2013 3 20, 0)],
      period_benchmark_returns = ()\<rparr>]"
proof -
  let ?s = "datetime_ymd 2013 1 15"
  let ?e = "datetime_ymd 2013 3 20"
  let ?rets = "ReturnsSeries [(?s, 0), (?e, 0)]"
  have ne: "returns_len ?rets \<noteq> 0"
    by simp
  have v: "1 \<le> month ?s" "month ?s \<le> 12" "1 \<le> month ?e" "month ?e \<le> 12"
    by (simp_all add: datetime_ymd_def)
  have n: "nat (month_index ?e - (if time_tuple ?s \<le> time_tuple ?e then 0 else 1)
      - (month_index ?s + 2 - 1) + 1) = 2"
    by (simp add: time_tuple_def month_index_def datetime_ymd_def)
  have two: "[0..<2] = [0, Suc 0]"
    by (simp add: numeral_2_eq_2)
  show ?thesis
    unfolding periods_in_range_eq [OF ne v] n two
    by (simp add: add_months_def minus_one_day_def days_in_month_def isleap_def
        datetime_ymd_def Let_def)
qed

theorem periods_in_range_month_aligned_witness:
  "is_month_start (datetime_ymd 2013 1 1) \<and> is_month_end (datetime_ymd 2013 2 28) \<and>
   (year (datetime_ymd 2013 2 28), month (datetime_ymd 2013 2 28), day (datetime_ymd 2013 2 28))
     \<le> (year (datetime_ymd 2013 3 20), month (datetime_ymd 2013 3 20),
         days_in_month (year (datetime_ymd 2013 3 20)) (month (datetime_ymd 2013 3 20))) \<and>
   datetime_ymd 2013 2 1 = add_months (datetime_ymd 2013 1 1) 1 \<and>
   dt_less (datetime_ymd 2013 1 1) (datetime_ymd 2013 2 1)"
proof -
  let ?s = "datetime_ymd 2013 1 15"
  let ?e = "datetime_ymd 2013 3 20"
  let ?rets = "ReturnsSeries [(?s, 0), (?e, 0)]"
  let ?p0 = "\<lparr>start_date = datetime_ymd 2013 1 1, end_date = datetime_ymd 2013 2 28,
      period_returns = ?rets, period_benchmark_returns = ()\<rparr>"
  have ne: "returns_len ?rets \<noteq> 0"
    by simp
  have vs: "valid_datetime ?s" and ve: "valid_datetime ?e"
    by (simp_all add: valid_datetime_def valid_time_def days_in_month_def datetime_ymd_def)
  note inst = periods_in_range_month_aligned [OF ne vs ve, of "()" 2,
      unfolded periods_in_range_two_month_example]
  have mem: "?p0 \<in> set [?p0, \<lparr>start_date = datetime_ymd 2013 2 1, end_date = datetime_ymd 2013 3 31,
      period_returns = ?rets, period_benchmark_returns = ()\<rparr>]"
    by simp
  from inst [THEN conjunct1, THEN bspec, OF mem]
  have a: "is_month_start (datetime_ymd 2013 1 1) \<and> is_month_end (datetime_ymd 2013 2 28) \<and>
      (year (datetime_ymd 2013 2 28), month (datetime_ymd 2013 2 28), day (datetime_ymd 2013 2 28))
        \<le> (year ?e, month ?e, days_in_month (year ?e) (month ?e))"
    by simp
  let ?p1 = "\<lparr>start_date = datetime_ymd 2013 2 1, end_date = datetime_ymd 2013 3 31,
      period_returns = ?rets, period_benchmark_returns = ()\<rparr>"
  have len: "Suc 0 < length [?p0, ?p1]"
    by simp
  have n0: "[?p0, ?p1] ! 0 = ?p0" and n1: "[?p0, ?p1] ! Suc 0 = ?p1"
    by simp_all
  have s0: "start_date ?p0 = datetime_ymd 2013 1 1" and s1: "start_date ?p1 = datetime_ymd 2013 2 1"
    by simp_all
  note b = inst [THEN conjunct2, THEN spec, THEN mp, OF len, unfolded n0 n1 s0 s1]
  from a b [THEN conjunct1] b [THEN conjunct2, THEN conjunct2] show ?thesis
    by (intro conjI) (elim conjE, assumption)+
qed

end
